theory Spec2Isabelle
  imports Complex_Main "HOL-Library.Word" "HOL-Library.Log_Nat"
begin

unbundle bit_operations_syntax

section \<open>Python values\<close>

text \<open>
  The hotplate driver is Python. Its integers are unbounded (\<open>int\<close>), its \<open>bytes\<close> are
  lists of 8-bit values, and its \<open>float\<close> is IEEE-754 binary64. A finite float is
  represented by the rational number it denotes; every operation of the source that
  rounds (\<open>float(n)\<close>, \<open>x * 10\<close>, \<open>x / 10.0\<close>) goes through \<open>binary64\<close>, rounding to
  nearest with ties to even, so that e.g. \<open>0.7 * 10\<close> is \<open>7.0\<close> as in Python. The two
  zeros are identified (no operation of the driver tells them apart).
\<close>

type_synonym byte = "8 word"
type_synonym bytes = "byte list"

datatype pyfloat = Fin rat | PosInf | NegInf | NaN

definition round_half_even :: "rat \<Rightarrow> int" where
  "round_half_even x =
     (let f = \<lfloor>x\<rfloor>; r = x - of_int f
      in if r < 1 / 2 then f else if 1 / 2 < r then f + 1 else if even f then f else f + 1)"

text \<open>\<open>ilog2 x\<close> is the binary exponent of a positive rational: \<open>2 ^ e \<le> x < 2 ^ (e + 1)\<close>.\<close>

definition ilog2 :: "rat \<Rightarrow> int" where
  "ilog2 x = (if 1 \<le> x then bitlen \<lfloor>x\<rfloor> - 1 else - bitlen (\<lceil>1 / x\<rceil> - 1))"

definition pow2 :: "int \<Rightarrow> rat" where
  "pow2 e = (if 0 \<le> e then 2 ^ nat e else 1 / 2 ^ nat (- e))"

text \<open>
  Rounding a rational to binary64: 53 significant bits, exponent at least \<open>-1022\<close>
  (subnormals below), overflow to infinity from \<open>2 ^ 1024\<close>.
\<close>

definition binary64 :: "rat \<Rightarrow> pyfloat" where
  "binary64 x =
     (if x = 0 then Fin 0
      else let a = \<bar>x\<bar>;
               e = max (ilog2 a) (- 1022);
               u = pow2 (e - 52);
               y = of_int (round_half_even (a / u)) * u
           in if pow2 1024 \<le> y then (if 0 < x then PosInf else NegInf)
              else Fin (if 0 < x then y else - y))"

text \<open>\<open>x * 10\<close> and \<open>x / 10.0\<close> on floats (the only float arithmetic of the driver).\<close>

fun float_times10 :: "pyfloat \<Rightarrow> pyfloat" where
  "float_times10 (Fin x) = binary64 (x * 10)"
| "float_times10 PosInf = PosInf"
| "float_times10 NegInf = NegInf"
| "float_times10 NaN = NaN"

fun float_div10 :: "pyfloat \<Rightarrow> pyfloat" where
  "float_div10 (Fin x) = binary64 (x / 10)"
| "float_div10 PosInf = PosInf"
| "float_div10 NegInf = NegInf"
| "float_div10 NaN = NaN"

text \<open>\<open>a <= b\<close> on floats: every comparison with NaN is false.\<close>

fun float_le :: "pyfloat \<Rightarrow> pyfloat \<Rightarrow> bool" where
  "float_le NaN b = False"
| "float_le a NaN = False"
| "float_le NegInf b = True"
| "float_le a PosInf = True"
| "float_le PosInf b = False"
| "float_le a NegInf = False"
| "float_le (Fin x) (Fin y) = (x \<le> y)"

datatype exn =
    ValueError | TypeError | OverflowError | KeyError | IndexError
  | IncompleteResponseException | ResponseFormatException
  | ResponseParseException | HotplateException
  | ReadingNotCompleteException | NoCommunicationException | NoDataException
  | RxThreadAlreadyStarted
  | SerialError string

text \<open>\<open>int(x)\<close> of a float truncates toward zero; it raises on infinities and NaN.\<close>

fun float_to_int :: "pyfloat \<Rightarrow> exn + int" where
  "float_to_int (Fin x) = Inr (if 0 \<le> x then \<lfloor>x\<rfloor> else \<lceil>x\<rceil>)"
| "float_to_int PosInf = Inl OverflowError"
| "float_to_int NegInf = Inl OverflowError"
| "float_to_int NaN = Inl ValueError"

text \<open>\<open>float(n)\<close> of an integer rounds; it raises OverflowError beyond the float range.\<close>

definition int_to_float :: "int \<Rightarrow> exn + pyfloat" where
  "int_to_float n =
     (case binary64 (of_int n) of
        Fin x \<Rightarrow> Inr (Fin x)
      | _ \<Rightarrow> Inl OverflowError)"

datatype pyval = PyNone | PyBool bool | PyInt int | PyFloat pyfloat | PyStr string

text \<open>
  Python's parsers of numerals in strings (\<open>int("560")\<close>, \<open>float("200.5")\<close>) are
  built-ins outside the driver; the model takes them as parameters (\<open>None\<close>: the
  built-in raises ValueError).
\<close>

record pyrt =
  int_of_str :: "string \<Rightarrow> int option"
  float_of_str :: "string \<Rightarrow> pyfloat option"

fun py_int :: "pyrt \<Rightarrow> pyval \<Rightarrow> exn + int" where
  "py_int R PyNone = Inl TypeError"
| "py_int R (PyBool b) = Inr (if b then 1 else 0)"
| "py_int R (PyInt n) = Inr n"
| "py_int R (PyFloat f) = float_to_int f"
| "py_int R (PyStr s) = (case int_of_str R s of None \<Rightarrow> Inl ValueError | Some n \<Rightarrow> Inr n)"

fun py_float :: "pyrt \<Rightarrow> pyval \<Rightarrow> exn + pyfloat" where
  "py_float R PyNone = Inl TypeError"
| "py_float R (PyBool b) = Inr (Fin (if b then 1 else 0))"
| "py_float R (PyInt n) = int_to_float n"
| "py_float R (PyFloat f) = Inr f"
| "py_float R (PyStr s) = (case float_of_str R s of None \<Rightarrow> Inl ValueError | Some f \<Rightarrow> Inr f)"

text \<open>Truthiness (\<open>not val\<close>, \<open>if val\<close>).\<close>

fun truthy :: "pyval \<Rightarrow> bool" where
  "truthy PyNone = False"
| "truthy (PyBool b) = b"
| "truthy (PyInt n) = (n \<noteq> 0)"
| "truthy (PyFloat f) = (f \<noteq> Fin 0)"
| "truthy (PyStr s) = (s \<noteq> [])"

text \<open>
  \<open>a == b\<close>: numbers (bool, int, float) compare by their exact value, NaN equals
  nothing, a string equals only the same string.
\<close>

fun py_num :: "pyval \<Rightarrow> pyfloat option" where
  "py_num (PyBool b) = Some (Fin (if b then 1 else 0))"
| "py_num (PyInt n) = Some (Fin (of_int n))"
| "py_num (PyFloat f) = Some f"
| "py_num v = None"

definition py_eq :: "pyval \<Rightarrow> pyval \<Rightarrow> bool" where
  "py_eq a b =
     (case (py_num a, py_num b) of
        (Some x, Some y) \<Rightarrow> x \<noteq> NaN \<and> x = y
      | (None, None) \<Rightarrow> a = b
      | _ \<Rightarrow> False)"

type_synonym pydict = "string \<rightharpoonup> pyval"

text \<open>\<open>d[k]\<close>, \<open>xs[i]\<close> for \<open>i \<ge> 0\<close>: a missing key or index raises.\<close>

definition getitem :: "pydict \<Rightarrow> string \<Rightarrow> exn + pyval" where
  "getitem d k = (case d k of None \<Rightarrow> Inl KeyError | Some v \<Rightarrow> Inr v)"

definition index :: "'a list \<Rightarrow> nat \<Rightarrow> exn + 'a" where
  "index xs i = (if i < length xs then Inr (xs ! i) else Inl IndexError)"

text \<open>Sequencing of steps that may raise: the first exception ends the sequence.\<close>

definition bindE :: "exn + 'a \<Rightarrow> ('a \<Rightarrow> exn + 'b) \<Rightarrow> exn + 'b" where
  "bindE m f = (case m of Inl e \<Rightarrow> Inl e | Inr x \<Rightarrow> f x)"

text \<open>\<open>bytes(ints)\<close> raises ValueError unless every element is in \<open>range(256)\<close>.\<close>

definition py_bytes :: "int list \<Rightarrow> exn + bytes" where
  "py_bytes xs =
     (if list_all (\<lambda>x. 0 \<le> x \<and> x < 256) xs then Inr (map word_of_int xs)
      else Inl ValueError)"

section \<open>MSHProCommunication: the frame codec\<close>

datatype COMMUNICATION = PING | INFO | STATUS | STIR | HEAT | MODE

text \<open>The enum member's value (the opcode) and its name in lower case.\<close>

fun comm_value :: "COMMUNICATION \<Rightarrow> int" where
  "comm_value PING = 0xA0"
| "comm_value INFO = 0xA1"
| "comm_value STATUS = 0xA2"
| "comm_value STIR = 0xB1"
| "comm_value HEAT = 0xB2"
| "comm_value MODE = 0xB3"

fun name_lower :: "COMMUNICATION \<Rightarrow> string" where
  "name_lower PING = ''ping''"
| "name_lower INFO = ''info''"
| "name_lower STATUS = ''status''"
| "name_lower STIR = ''stir''"
| "name_lower HEAT = ''heat''"
| "name_lower MODE = ''_mode''"

definition len_rx :: "COMMUNICATION \<Rightarrow> nat" where
  "len_rx c = (if c \<in> {INFO, STATUS} then 11 else 6)"

text \<open>
  \<open>checksum\<close>: the loop \<open>checksum_result = (checksum_result + int(c)) & 0xFF\<close> over
  the values, from 0. (The codec calls it on bytes only; its branch for a \<open>str\<close>
  argument, which sums the code points, is not part of the model.)
\<close>

definition checksum :: "int list \<Rightarrow> int" where
  "checksum val = fold (\<lambda>c checksum_result. (checksum_result + c) AND 0xFF) val 0"

text \<open>
  \<open>to_bytes\<close>, the value formatting: \<open>int(val)\<close> for STIR, \<open>int(float(val) * 10)\<close> for
  HEAT (the four other commands have returned before).
\<close>

definition format_value :: "pyrt \<Rightarrow> COMMUNICATION \<Rightarrow> pyval \<Rightarrow> exn + int" where
  "format_value R c val =
     (if c = STIR then py_int R val
      else case py_float R val of
             Inl e \<Rightarrow> Inl e
           | Inr f \<Rightarrow> float_to_int (float_times10 f))"

text \<open>The last statement of \<open>to_bytes\<close>: the three encoded bytes, framed and summed.\<close>

definition encode_frame :: "COMMUNICATION \<Rightarrow> int \<Rightarrow> exn + bytes" where
  "encode_frame c val =
     (case py_bytes [comm_value c, drop_bit 8 val AND 0xFF, val AND 0xFF] of
        Inl e \<Rightarrow> Inl e
      | Inr encoded_value \<Rightarrow>
          py_bytes ([0xFE] @ map uint encoded_value
                    @ [0x00, checksum (map uint encoded_value)]))"

definition to_bytes :: "pyrt \<Rightarrow> COMMUNICATION \<Rightarrow> pyval \<Rightarrow> exn + bytes" where
  "to_bytes R c val =
     (if c = PING then Inr [0xFE, 0xA0, 0x00, 0x00, 0x00, 0xA0]
      else if c = INFO then Inr [0xFE, 0xA1, 0x00, 0x00, 0x00, 0xA1]
      else if c = STATUS then Inr [0xFE, 0xA2, 0x00, 0x00, 0x00, 0xA2]
      else if c = MODE then Inr [0xFE, 0xB3, 0x00, 0x00, 0x00, 0xB3]
      else if val = PyNone then Inl ValueError
      else case format_value R c val of
             Inl e \<Rightarrow> Inl e
           | Inr n \<Rightarrow>
               if \<not> (0 \<le> n \<and> n \<le> 65535) then Inl ValueError
               else encode_frame c n)"

text \<open>
  \<open>parse_response\<close>. The body of the \<open>try\<close> for INFO; any exception in it is
  re-raised as ResponseParseException by \<open>parse_response\<close>.
\<close>

definition info_fields :: "bytes \<Rightarrow> exn + pydict" where
  "info_fields b_data =
     bindE (index b_data 0) (\<lambda>b0.
     bindE (index ''_ABC'' (unat b0)) (\<lambda>m.
     bindE (index b_data 1) (\<lambda>b1.
     bindE (index b_data 2) (\<lambda>b2.
     bindE (index b_data 3) (\<lambda>b3.
     bindE (index b_data 4) (\<lambda>b4.
     bindE (int_to_float (push_bit 8 (uint b3) + uint b4)) (\<lambda>hl.
     bindE (index b_data 5) (\<lambda>b5.
       Inr [''mode'' \<mapsto> PyStr [m],
            ''stir_on'' \<mapsto> PyBool (uint b1 = 0),
            ''heat_on'' \<mapsto> PyBool (uint b2 = 0),
            ''heat_limit'' \<mapsto> PyFloat (float_div10 hl),
            ''heat_alarm'' \<mapsto> PyBool (uint b5 = 0),
            ''success'' \<mapsto> PyBool True]))))))))"

text \<open>The body of the \<open>try\<close> for STATUS.\<close>

definition status_fields :: "bytes \<Rightarrow> exn + pydict" where
  "status_fields b_data =
     bindE (index b_data 0) (\<lambda>b0.
     bindE (index b_data 1) (\<lambda>b1.
     bindE (index b_data 2) (\<lambda>b2.
     bindE (index b_data 3) (\<lambda>b3.
     bindE (index b_data 4) (\<lambda>b4.
     bindE (index b_data 5) (\<lambda>b5.
     bindE (int_to_float (push_bit 8 (uint b4) + uint b5)) (\<lambda>hs.
     bindE (index b_data 6) (\<lambda>b6.
     bindE (index b_data 7) (\<lambda>b7.
     bindE (int_to_float (push_bit 8 (uint b6) + uint b7)) (\<lambda>ha.
       Inr [''stir_set'' \<mapsto> PyInt (push_bit 8 (uint b0) + uint b1),
            ''stir_actual'' \<mapsto> PyInt (push_bit 8 (uint b2) + uint b3),
            ''heat_set'' \<mapsto> PyFloat (float_div10 hs),
            ''heat_actual'' \<mapsto> PyFloat (float_div10 ha),
            ''success'' \<mapsto> PyBool True]))))))))))"

text \<open>
  With \<open>len(b) \<ge> 6\<close> established by the length check, \<open>b[0]\<close>, \<open>b[1]\<close> and \<open>b[-1]\<close>
  exist, \<open>b[1:-1]\<close> is \<open>drop 1 (butlast b)\<close> and \<open>b[2:-1]\<close> is \<open>drop 2 (butlast b)\<close>.
  The result dictionary starts as \<open>{"success": False}\<close> and is updated in place.
\<close>

definition parse_response :: "COMMUNICATION \<Rightarrow> bytes \<Rightarrow> exn + pydict" where
  "parse_response c b =
     (if length b < len_rx c then Inl IncompleteResponseException
      else if \<not> (uint (b ! 0) = 0xFD
                \<and> uint (b ! 1) = comm_value c
                \<and> uint (last b) = checksum (map uint (drop 1 (butlast b))))
        then Inl ResponseFormatException
      else
        let response = [''success'' \<mapsto> PyBool False];
            b_data = drop 2 (butlast b)
        in if c \<in> {PING, STIR, HEAT, MODE} then
             (if b_data = [0x00, 0x00, 0x00] then Inr (response(''success'' \<mapsto> PyBool True))
              else if b_data = [0x01, 0x00, 0x00] \<and> \<not> c = PING then Inl HotplateException
              else Inl ResponseParseException)
           else if c = INFO then
             (case info_fields b_data of
                Inl e \<Rightarrow> Inl ResponseParseException
              | Inr parsed \<Rightarrow> Inr (response ++ parsed))
           else if c = STATUS then
             (case status_fields b_data of
                Inl e \<Rightarrow> Inl ResponseParseException
              | Inr parsed \<Rightarrow> Inr (response ++ parsed))
           else Inr response)"

text \<open>
  The request frame in the words of the protocol description:
  \<open>[0xFE, opcode, value_hi, value_lo, 0x00, checksum]\<close>, the checksum being the sum
  modulo 256 of \<open>[opcode, value_hi, value_lo, 0x00]\<close>. It is compared with \<open>to_bytes\<close>
  below.
\<close>

definition request_frame :: "int \<Rightarrow> int \<Rightarrow> bytes" where
  "request_frame opcode v =
     (let value_hi = v div 256; value_lo = v mod 256
      in map word_of_int
           [0xFE, opcode, value_hi, value_lo, 0x00,
            (opcode + value_hi + value_lo + 0x00) mod 256])"

section \<open>SerialThreadedDuplex: the stored result of a transaction\<close>

text \<open>
  The private fields of \<open>Serial\<close>: \<open>rx_thread\<close> is \<open>None\<close> before the first
  transaction and otherwise holds whether the reader thread \<open>is_alive()\<close>;
  \<open>rx_value\<close> and \<open>rx_exception\<close> are the stored result and failure. The property
  \<open>value\<close> reads one snapshot of them. Exceptions are truthy objects, so
  \<open>if self.__rx_exception\<close> tests for a stored exception.
\<close>

record serial_rx =
  rx_thread :: "bool option"
  rx_value :: "bytes option"
  rx_exception :: "exn option"

definition rx_raise :: "serial_rx \<Rightarrow> exn + unit" where
  "rx_raise s = (case rx_exception s of Some e \<Rightarrow> Inl e | None \<Rightarrow> Inr ())"

definition rx_result :: "serial_rx \<Rightarrow> exn + bytes" where
  "rx_result s =
     bindE (rx_raise s) (\<lambda>_.
       if rx_thread s \<noteq> None \<and> rx_thread s = Some True
         then Inl ReadingNotCompleteException
       else case rx_value s of
              None \<Rightarrow> Inl NoCommunicationException
            | Some v \<Rightarrow> if v = [] then Inl NoDataException else Inr v)"

section \<open>MSHPro: the command sequencer\<close>

text \<open>
  The serial port and the device behind it are the environment: \<open>'d\<close> is its state,
  \<open>io_is_open\<close> the attribute \<open>is_open\<close>, \<open>io_open\<close> the call \<open>open()\<close> and
  \<open>io_write_with_read\<close> one duplex transaction \<open>write_with_read(data, size)\<close>, each
  returning normally or raising. The driver's state is the port together with the
  debug log of the frames sent (\<open>logger.debug("Sending bytes: ...")\<close>, written just
  before each transaction): a transaction is issued exactly when a frame is logged.
\<close>

record 'd serial_io =
  io_is_open :: "'d \<Rightarrow> bool"
  io_open :: "'d \<Rightarrow> (exn + unit) \<times> 'd"
  io_write_with_read :: "'d \<Rightarrow> bytes \<Rightarrow> nat \<Rightarrow> (exn + bytes) \<times> 'd"

record 'd hotplate =
  serial :: 'd
  sent :: "bytes list"

text \<open>Statements in sequence, with state and exceptions.\<close>

definition bindS ::
  "('s \<Rightarrow> (exn + 'a) \<times> 's) \<Rightarrow> ('a \<Rightarrow> 's \<Rightarrow> (exn + 'b) \<times> 's) \<Rightarrow> 's \<Rightarrow> (exn + 'b) \<times> 's" where
  "bindS m f s = (case m s of (Inl e, s1) \<Rightarrow> (Inl e, s1) | (Inr x, s1) \<Rightarrow> f x s1)"

definition returnS :: "'a \<Rightarrow> 's \<Rightarrow> (exn + 'a) \<times> 's" where
  "returnS x s = (Inr x, s)"

definition raiseS :: "exn \<Rightarrow> 's \<Rightarrow> (exn + 'a) \<times> 's" where
  "raiseS e s = (Inl e, s)"

definition liftE :: "exn + 'a \<Rightarrow> 's \<Rightarrow> (exn + 'a) \<times> 's" where
  "liftE r s = (r, s)"

definition serial_open :: "'d serial_io \<Rightarrow> 'd hotplate \<Rightarrow> (exn + unit) \<times> 'd hotplate" where
  "serial_open P s =
     (if io_is_open P (serial s) then (Inr (), s)
      else case io_open P (serial s) of (r, d) \<Rightarrow> (r, s\<lparr>serial := d\<rparr>))"

definition write_with_read ::
  "'d serial_io \<Rightarrow> bytes \<Rightarrow> nat \<Rightarrow> 'd hotplate \<Rightarrow> (exn + bytes) \<times> 'd hotplate" where
  "write_with_read P w_bytes n s =
     (case io_write_with_read P (serial s) w_bytes n of
        (r, d) \<Rightarrow> (r, s\<lparr>serial := d, sent := sent s @ [w_bytes]\<rparr>))"

definition command ::
  "pyrt \<Rightarrow> 'd serial_io \<Rightarrow> COMMUNICATION \<Rightarrow> pyval \<Rightarrow> pydict
     \<Rightarrow> 'd hotplate \<Rightarrow> (exn + pydict) \<times> 'd hotplate" where
  "command R P c var d =
     bindS (serial_open P) (\<lambda>_.
     bindS (liftE (to_bytes R c var)) (\<lambda>w_bytes.
     bindS (write_with_read P w_bytes (len_rx c)) (\<lambda>r_bytes.
     bindS (liftE (parse_response c r_bytes)) (\<lambda>parsed.
     returnS (d ++ parsed)))))"


definition status ::
  "pyrt \<Rightarrow> 'd serial_io \<Rightarrow> bool \<Rightarrow> 'd hotplate \<Rightarrow> (exn + pydict) \<times> 'd hotplate" where
  "status R P raw_values =
     bindS (command R P STATUS PyNone Map.empty) (\<lambda>r.
     bindS (command R P INFO PyNone r) (\<lambda>r.
     if \<not> raw_values then
       bindS (liftE (getitem r ''heat_on'')) (\<lambda>heat_on.
       let r = (if \<not> truthy heat_on then r(''heat_set'' \<mapsto> PyStr ''Off'') else r) in
       bindS (liftE (getitem r ''stir_on'')) (\<lambda>stir_on.
       let r = (if \<not> truthy stir_on then r(''stir_set'' \<mapsto> PyStr ''Off'') else r) in
       bindS (liftE (getitem r ''heat_alarm'')) (\<lambda>_.
       returnS r)))
     else returnS r))"

text \<open>
  \<open>__off\<close>: the status is read once, then the loop over the commands. Whether the
  acknowledgement's \<open>success\<close> is true or not only changes the log line.
\<close>

fun off_loop ::
  "pyrt \<Rightarrow> 'd serial_io \<Rightarrow> pydict \<Rightarrow> COMMUNICATION list
     \<Rightarrow> 'd hotplate \<Rightarrow> (exn + unit) \<times> 'd hotplate" where
  "off_loop R P current_status [] = returnS ()"
| "off_loop R P current_status (c # args) =
     bindS (liftE (getitem current_status (name_lower c @ ''_on''))) (\<lambda>on_status.
     if \<not> truthy on_status then off_loop R P current_status args
     else
       bindS (liftE (getitem current_status (name_lower c @ ''_set''))) (\<lambda>set_value.
       bindS (command R P c set_value Map.empty) (\<lambda>d.
       bindS (liftE (getitem d ''success'')) (\<lambda>_.
       off_loop R P current_status args))))"

definition off ::
  "pyrt \<Rightarrow> 'd serial_io \<Rightarrow> COMMUNICATION list \<Rightarrow> 'd hotplate \<Rightarrow> (exn + unit) \<times> 'd hotplate" where
  "off R P args =
     bindS (status R P False) (\<lambda>current_status. off_loop R P current_status args)"

definition heat_off :: "pyrt \<Rightarrow> 'd serial_io \<Rightarrow> 'd hotplate \<Rightarrow> (exn + unit) \<times> 'd hotplate" where
  "heat_off R P = off R P [HEAT]"

definition stir_off :: "pyrt \<Rightarrow> 'd serial_io \<Rightarrow> 'd hotplate \<Rightarrow> (exn + unit) \<times> 'd hotplate" where
  "stir_off R P = off R P [STIR]"

text \<open>\<open>__setval\<close>: \<open>send c v\<close> is \<open>self.__command(command, v)["success"]\<close> as a truth value.\<close>

definition send ::
  "pyrt \<Rightarrow> 'd serial_io \<Rightarrow> COMMUNICATION \<Rightarrow> pyval \<Rightarrow> 'd hotplate \<Rightarrow> (exn + bool) \<times> 'd hotplate" where
  "send R P c v =
     bindS (command R P c v Map.empty) (\<lambda>d.
     bindS (liftE (getitem d ''success'')) (\<lambda>ok.
     returnS (truthy ok)))"

definition setval ::
  "pyrt \<Rightarrow> 'd serial_io \<Rightarrow> COMMUNICATION \<Rightarrow> pyval \<Rightarrow> 'd hotplate \<Rightarrow> (exn + bool) \<times> 'd hotplate" where
  "setval R P c val =
     bindS (status R P True) (\<lambda>current_status.
     bindS (liftE (getitem current_status (name_lower c @ ''_set''))) (\<lambda>set_value.
     bindS (liftE (getitem current_status (name_lower c @ ''_on''))) (\<lambda>on_status.
     let val = (if val = PyNone then set_value else val) in
     if py_eq set_value val then
       (if truthy on_status then returnS True
        else bindS (send R P c set_value) (\<lambda>ok. returnS ok))
     else
       bindS (send R P c val) (\<lambda>ok.
       if \<not> ok then returnS False
       else if \<not> truthy on_status then returnS True
       else bindS (send R P c val) (\<lambda>ok. returnS ok)))))"

definition HEATLIMIT_MAX :: pyfloat where "HEATLIMIT_MAX = Fin 340"
definition HEATLIMIT_MIN :: pyfloat where "HEATLIMIT_MIN = Fin 25"
definition STIRLIMIT_MAX :: int where "STIRLIMIT_MAX = 1500"
definition STIRLIMIT_MIN :: int where "STIRLIMIT_MIN = 100"

text \<open>
  \<open>heat\<close>: the body of the \<open>try\<close>, then the handler \<open>except Exception as e:
  self.heat_off(); raise e\<close>, which also catches the ValueError raised in the body.
\<close>

definition heat_try :: "pyrt \<Rightarrow> 'd serial_io \<Rightarrow> pyval \<Rightarrow> 'd hotplate \<Rightarrow> (exn + unit) \<times> 'd hotplate" where
  "heat_try R P val =
     bindS (liftE (py_float R val)) (\<lambda>val.
     if \<not> (float_le HEATLIMIT_MIN val \<and> float_le val HEATLIMIT_MAX) then
       bindS (heat_off R P) (\<lambda>_. raiseS ValueError)
     else bindS (setval R P HEAT (PyFloat val)) (\<lambda>_. returnS ()))"

definition heat :: "pyrt \<Rightarrow> 'd serial_io \<Rightarrow> pyval \<Rightarrow> 'd hotplate \<Rightarrow> (exn + unit) \<times> 'd hotplate" where
  "heat R P val s =
     (if \<not> truthy val then heat_off R P s
      else case heat_try R P val s of
             (Inr u, s1) \<Rightarrow> (Inr (), s1)
           | (Inl e, s1) \<Rightarrow> bindS (heat_off R P) (\<lambda>_. raiseS e) s1)"

definition stir :: "pyrt \<Rightarrow> 'd serial_io \<Rightarrow> pyval \<Rightarrow> 'd hotplate \<Rightarrow> (exn + unit) \<times> 'd hotplate" where
  "stir R P val =
     (if \<not> truthy val then stir_off R P
      else
        bindS (liftE (py_int R val)) (\<lambda>val.
        if \<not> (STIRLIMIT_MIN \<le> val \<and> val \<le> STIRLIMIT_MAX) then raiseS ValueError
        else bindS (setval R P STIR (PyInt val)) (\<lambda>_. returnS ())))"




section \<open>The transcript of a port\<close>

text \<open>
  What the driver does on the wire is read off the port. A recording port behaves as
  the port it wraps and keeps, beside the state of that port, a transcript: every call
  of \<open>write_with_read\<close> adds one exchange, made of the frame written, the size asked
  for and what the port returned (the bytes read, or the exception raised).
\<close>

type_synonym exchange = "bytes \<times> nat \<times> (exn + bytes)"

definition recording :: "'d serial_io \<Rightarrow> ('d \<times> exchange list) serial_io" where
  "recording P =
     \<lparr>io_is_open = (\<lambda>(d, t). io_is_open P d),
      io_open = (\<lambda>(d, t). case io_open P d of (r, d') \<Rightarrow> (r, (d', t))),
      io_write_with_read =
        (\<lambda>(d, t) w n. case io_write_with_read P d w n of
                         (r, d') \<Rightarrow> (r, (d', t @ [(w, n, r)])))\<rparr>"

definition transcript :: "('d \<times> exchange list) hotplate \<Rightarrow> exchange list" where
  "transcript s = snd (serial s)"

text \<open>
  What \<open>self.__command(command, v)["success"]\<close> evaluates to, as a truth value, once
  the port has returned \<open>r\<close> for the frame of the command: the exception of the port or
  of \<open>parse_response\<close>, or the truth of the entry \<open>success\<close>.
\<close>

definition reply_outcome :: "COMMUNICATION \<Rightarrow> exn + bytes \<Rightarrow> exn + bool" where
  "reply_outcome c r =
     bindE r (\<lambda>r_bytes.
     bindE (parse_response c r_bytes) (\<lambda>d.
     bindE (getitem d ''success'') (\<lambda>ok.
     Inr (truthy ok))))"



section \<open>A scripted device, for concrete runs\<close>

text \<open>
  Concrete runs of the driver use a runtime in which no string parses as a number
  (the runs pass numbers only) and a port that is open and answers the transactions
  with a script of replies: each transaction consumes the next reply, and an exhausted
  script is a device that no longer answers (NoDataException).
\<close>

definition rt0 :: pyrt where
  "rt0 = \<lparr>int_of_str = (\<lambda>s. None), float_of_str = (\<lambda>s. None)\<rparr>"

type_synonym script = "(exn + bytes) list"

definition scripted :: "script serial_io" where
  "scripted =
     \<lparr>io_is_open = (\<lambda>d. True),
      io_open = (\<lambda>d. (Inr (), d)),
      io_write_with_read =
        (\<lambda>d w n. case d of [] \<Rightarrow> (Inl NoDataException, []) | r # rs \<Rightarrow> (r, rs))\<rparr>"

definition start :: "script \<Rightarrow> script hotplate" where
  "start d = \<lparr>serial = d, sent = []\<rparr>"

text \<open>The same device behind a recording port, its transcript empty.\<close>

definition recorded :: "script \<Rightarrow> (script \<times> exchange list) hotplate" where
  "recorded d = \<lparr>serial = (d, []), sent = []\<rparr>"

text \<open>
  Replies of the device: STATUS with the stir target 200 rpm, or with the heat target
  200.0 or 400.0 degrees; INFO in mode A with stirring on, with heating on, or with
  both off; the acknowledgements of STIR, HEAT and MODE; and the failure report for
  MODE.
\<close>

definition st_stir200 :: bytes where
  "st_stir200 = [0xFD, 0xA2, 0x00, 0xC8, 0x00, 0x00, 0x00, 0x00, 0x00, 0x00, 0x6A]"


definition inf_stir_on :: bytes where
  "inf_stir_on = [0xFD, 0xA1, 0x01, 0x00, 0x01, 0x00, 0x00, 0x00, 0x00, 0x00, 0xA3]"


definition inf_heat_off :: bytes where
  "inf_heat_off = [0xFD, 0xA1, 0x01, 0x01, 0x01, 0x00, 0x00, 0x00, 0x00, 0x00, 0xA4]"

definition ack_stir :: bytes where
  "ack_stir = [0xFD, 0xB1, 0x00, 0x00, 0x00, 0xB1]"





section \<open>The codec: checksum and request frames\<close>

lemma and_255: "(x::int) AND 0xFF = x mod 256"
proof -
  have "x AND mask 8 = x mod 2 ^ 8" by (simp only: take_bit_eq_mask [symmetric] take_bit_eq_mod)
  then show ?thesis by (simp add: mask_eq_exp_minus_1)
qed

lemma fold_checksum:
  "fold (\<lambda>c r. (r + c) AND 0xFF) xs r = ((r::int) + sum_list xs) mod 256" if "0 \<le> r" "r < 256"
  using that
proof (induction xs arbitrary: r)
  case Nil then show ?case by simp
next
  case (Cons x xs)
  have "fold (\<lambda>c r. (r + c) AND 0xFF) (x # xs) r = fold (\<lambda>c r. (r + c) AND 0xFF) xs ((r + x) mod 256)"
    by (simp add: and_255)
  also have "\<dots> = ((r + x) mod 256 + sum_list xs) mod 256"
    by (rule Cons.IH) simp_all
  also have "\<dots> = (r + sum_list (x # xs)) mod 256"
    by (simp add: mod_add_left_eq add.assoc)
  finally show ?case .
qed

lemma checksum_sum: "checksum xs = sum_list xs mod 256"
  unfolding checksum_def using fold_checksum [of 0 xs] by simp

lemma uint_byte_of_int: "0 \<le> x \<Longrightarrow> x < 256 \<Longrightarrow> uint (word_of_int x :: byte) = x"
  by (simp add: uint_word_of_int take_bit_eq_mod)

lemma comm_value_range: "0 \<le> comm_value c \<and> comm_value c < 256"
  by (cases c) simp_all

lemma encode_frame_eq:
  assumes "0 \<le> n" "n \<le> 65535"
  shows "encode_frame c n = Inr (request_frame (comm_value c) n)"
proof -
  have hi: "drop_bit 8 n AND 0xFF = n div 256"
  proof -
    have "0 \<le> n div 256" "n div 256 < 256" using assms by auto
    then show ?thesis by (simp add: and_255 drop_bit_eq_div)
  qed
  have lo: "n AND 0xFF = n mod 256" by (rule and_255)
  have r1: "0 \<le> n div 256" "n div 256 < 256" using assms by auto
  have r2: "0 \<le> n mod 256" "n mod 256 < 256" by auto
  note cv = comm_value_range [of c]
  have enc: "py_bytes [comm_value c, drop_bit 8 n AND 0xFF, n AND 0xFF]
      = Inr [word_of_int (comm_value c), word_of_int (n div 256), word_of_int (n mod 256)]"
    unfolding hi lo using cv r1 r2 by (simp add: py_bytes_def)
  have ui: "map uint [word_of_int (comm_value c) :: byte, word_of_int (n div 256), word_of_int (n mod 256)]
      = [comm_value c, n div 256, n mod 256]"
    using cv r1 r2 by (simp add: uint_byte_of_int)
  have ck: "checksum [comm_value c, n div 256, n mod 256] = (comm_value c + n div 256 + n mod 256 + 0) mod 256"
    by (simp add: checksum_sum add.assoc)
  have ckr: "0 \<le> (comm_value c + n div 256 + n mod 256 + 0) mod 256"
     "(comm_value c + n div 256 + n mod 256 + 0) mod 256 < 256" by auto
  show ?thesis
    unfolding encode_frame_def enc sum.case ui ck
    using cv r1 r2 ckr by (simp add: py_bytes_def request_frame_def Let_def)
qed

lemma request_frame_bytes:
  "request_frame opc n =
     [0xFE, word_of_int opc, word_of_int (n div 256), word_of_int (n mod 256), 0x00,
      word_of_int ((opc + n div 256 + n mod 256 + 0x00) mod 256)]"
  by (simp add: request_frame_def Let_def)



section \<open>The codec: decoding\<close>

text \<open>
  Claim C4. The expected response length is 11 for INFO and STATUS and 6 otherwise,
  and any byte string shorter than it decodes to IncompleteResponseException, whatever
  its bytes are: the length check precedes the marker, echo and checksum checks, and
  no dictionary is returned.
\<close>

theorem parse_response_incomplete:
  "len_rx c = (if c = INFO \<or> c = STATUS then 11 else 6)
   \<and> (length b < len_rx c \<longrightarrow> parse_response c b = Inl IncompleteResponseException)"
  by (simp add: parse_response_def len_rx_def)

theorem parse_response_incomplete_witness:
  "length [0xFD, 0xA1, 0x01, 0x00, 0x00, 0x0D, 0x48, 0x00, 0x00, 0x00 :: byte] < len_rx INFO
   \<and> parse_response INFO [0xFD, 0xA1, 0x01, 0x00, 0x00, 0x0D, 0x48, 0x00, 0x00, 0x00]
       = Inl IncompleteResponseException"
proof -
  have h: "length [0xFD, 0xA1, 0x01, 0x00, 0x00, 0x0D, 0x48, 0x00, 0x00, 0x00 :: byte] < len_rx INFO"
    by (simp add: len_rx_def)
  from parse_response_incomplete [of INFO "[0xFD, 0xA1, 0x01, 0x00, 0x00, 0x0D, 0x48, 0x00, 0x00, 0x00]"] h
  show ?thesis by blast
qed

text \<open>
  Claim C3. For PING, STIR, HEAT and MODE, a frame that passes the length, marker,
  opcode echo and checksum checks decodes by its payload \<open>b[2:-1]\<close>: \<open>00 00 00\<close> is
  success; \<open>01 00 00\<close> is HotplateException, except for PING, where it is
  ResponseParseException; every other payload is ResponseParseException.
\<close>

theorem parse_response_ack:
  assumes "c \<in> {PING, STIR, HEAT, MODE}"
    and "6 \<le> length b"
    and "uint (b ! 0) = 0xFD"
    and "uint (b ! 1) = comm_value c"
    and "uint (last b) = checksum (map uint (drop 1 (butlast b)))"
  shows "parse_response c b =
     (if drop 2 (butlast b) = [0x00, 0x00, 0x00] then Inr [''success'' \<mapsto> PyBool True]
      else if drop 2 (butlast b) = [0x01, 0x00, 0x00] then
        (if c = PING then Inl ResponseParseException else Inl HotplateException)
      else Inl ResponseParseException)"
  using assms by (auto simp: parse_response_def len_rx_def Let_def)

theorem parse_response_ack_witness:
  "parse_response STIR [0xFD, 0xB1, 0x01, 0x00, 0x00, 0xB2] = Inl HotplateException
   \<and> parse_response PING [0xFD, 0xA0, 0x01, 0x00, 0x00, 0xA1] = Inl ResponseParseException
   \<and> parse_response HEAT [0xFD, 0xB2, 0x00, 0x00, 0x00, 0xB2] = Inr [''success'' \<mapsto> PyBool True]
   \<and> parse_response MODE [0xFD, 0xB3, 0x00, 0x01, 0x00, 0xB4] = Inl ResponseParseException"
proof -
  have a: "parse_response STIR [0xFD, 0xB1, 0x01, 0x00, 0x00, 0xB2] = Inl HotplateException"
    using parse_response_ack [of STIR "[0xFD, 0xB1, 0x01, 0x00, 0x00, 0xB2]"]
    by (simp add: checksum_def)
  have b: "parse_response PING [0xFD, 0xA0, 0x01, 0x00, 0x00, 0xA1] = Inl ResponseParseException"
    using parse_response_ack [of PING "[0xFD, 0xA0, 0x01, 0x00, 0x00, 0xA1]"]
    by (simp add: checksum_def)
  have c: "parse_response HEAT [0xFD, 0xB2, 0x00, 0x00, 0x00, 0xB2]
      = Inr [''success'' \<mapsto> PyBool True]"
    using parse_response_ack [of HEAT "[0xFD, 0xB2, 0x00, 0x00, 0x00, 0xB2]"]
    by (simp add: checksum_def)
  have d: "parse_response MODE [0xFD, 0xB3, 0x00, 0x01, 0x00, 0xB4] = Inl ResponseParseException"
    using parse_response_ack [of MODE "[0xFD, 0xB3, 0x00, 0x01, 0x00, 0xB4]"]
    by (simp add: checksum_def)
  from a b c d show ?thesis by simp
qed

text \<open>
  Integers of 16 bits are floats exactly, so the numeric fields of INFO and STATUS
  always convert, and a well-formed INFO response decodes by its data bytes alone:
  the mode is the character of \<open>"_ABC"\<close> at byte 0 when that is below 4 (an
  IndexError, turned into ResponseParseException, otherwise), and a flag is on when
  its byte is zero.
\<close>

lemma round_half_even_int: "round_half_even (of_int k) = k"
  by (simp add: round_half_even_def)

lemma binary64_u16:
  assumes "0 \<le> n" "n < 65536"
  shows "binary64 (of_int n) = Fin (of_int n)"
proof (cases "n = 0")
  case True
  then show ?thesis by (simp add: binary64_def)
next
  case False
  with assms have pos: "0 < n" by simp
  have b16: "bitlen n \<le> 16" using assms by (simp add: bitlen_le_iff_power)
  have b1: "1 \<le> bitlen n" using pos by (simp add: bitlen_ge_iff_power)
  define e where "e = bitlen n - 1"
  define m where "m = nat (52 - e)"
  have e: "0 \<le> e" "e \<le> 15" using b16 b1 by (simp_all add: e_def)
  have il: "ilog2 \<bar>of_int n\<bar> = e"
    using pos by (simp add: ilog2_def e_def)
  have mx: "max e (- 1022) = e" using e by simp
  have u: "pow2 (e - 52) = 1 / 2 ^ m" using e by (simp add: pow2_def m_def)
  have q: "\<bar>rat_of_int n\<bar> / (1 / 2 ^ m) = of_int (n * 2 ^ m)" using pos by simp
  have y: "of_int (round_half_even (\<bar>rat_of_int n\<bar> / (1 / 2 ^ m))) * (1 / 2 ^ m) = rat_of_int n"
    unfolding q round_half_even_int by simp
  have lt: "\<not> pow2 1024 \<le> rat_of_int n"
  proof -
    have "rat_of_int n < 65536" using assms by simp
    also have "(65536::rat) \<le> 2 ^ 1024"
    proof -
      have "(2::rat) ^ 16 \<le> 2 ^ 1024" by (rule power_increasing) simp_all
      then show ?thesis by simp
    qed
    finally show ?thesis by (simp add: pow2_def)
  qed
  show ?thesis
    unfolding binary64_def Let_def il mx u y using pos lt by simp
qed

lemma int_to_float_u16:
  assumes "0 \<le> n" "n < 65536"
  shows "int_to_float n = Inr (Fin (of_int n))"
  by (simp add: int_to_float_def binary64_u16 [OF assms])

lemma u16_range: "0 \<le> push_bit 8 (uint (a :: byte)) + uint (b :: byte)
    \<and> push_bit 8 (uint a) + uint b < 65536"
proof -
  have "uint a < 256" "uint b < 256" "0 \<le> uint a" "0 \<le> uint b"
    using uint_bounded [of a] uint_bounded [of b] by simp_all
  then show ?thesis by (simp add: push_bit_eq_mult)
qed

lemma info_fields_eq:
  assumes "8 \<le> length d"
  shows "info_fields d =
     (if unat (d ! 0) < 4 then
        Inr [''mode'' \<mapsto> PyStr [''_ABC'' ! unat (d ! 0)],
             ''stir_on'' \<mapsto> PyBool (d ! 1 = 0),
             ''heat_on'' \<mapsto> PyBool (d ! 2 = 0),
             ''heat_limit'' \<mapsto> PyFloat (float_div10 (Fin (of_int (push_bit 8 (uint (d ! 3)) + uint (d ! 4))))),
             ''heat_alarm'' \<mapsto> PyBool (d ! 5 = 0),
             ''success'' \<mapsto> PyBool True]
      else Inl IndexError)"
proof -
  from assms have "d \<noteq> []" by auto
  with assms u16_range [of "d ! 3" "d ! 4"] show ?thesis
    by (simp add: info_fields_def index_def bindE_def int_to_float_u16 uint_0_iff)
qed

lemma parse_response_info:
  assumes "11 \<le> length b"
    and "uint (b ! 0) = 0xFD"
    and "uint (b ! 1) = 0xA1"
    and "uint (last b) = checksum (map uint (drop 1 (butlast b)))"
  shows "parse_response INFO b =
     (if unat (b ! 2) < 4 then
        Inr [''mode'' \<mapsto> PyStr [''_ABC'' ! unat (b ! 2)],
             ''stir_on'' \<mapsto> PyBool (b ! 3 = 0),
             ''heat_on'' \<mapsto> PyBool (b ! 4 = 0),
             ''heat_limit'' \<mapsto> PyFloat (float_div10 (Fin (of_int (push_bit 8 (uint (b ! 5)) + uint (b ! 6))))),
             ''heat_alarm'' \<mapsto> PyBool (b ! 7 = 0),
             ''success'' \<mapsto> PyBool True]
      else Inl ResponseParseException)"
proof -
  have l: "8 \<le> length (drop 2 (butlast b))" using assms(1) by simp
  have nth: "butlast b ! 2 = b ! 2" "butlast b ! 3 = b ! 3" "butlast b ! 4 = b ! 4"
    "butlast b ! 5 = b ! 5" "butlast b ! 6 = b ! 6" "butlast b ! 7 = b ! 7"
    using assms(1) by (simp_all add: nth_butlast)
  have m: "[''success'' \<mapsto> PyBool False] ++ [''mode'' \<mapsto> x1, ''stir_on'' \<mapsto> x2, ''heat_on'' \<mapsto> x3,
             ''heat_limit'' \<mapsto> x4, ''heat_alarm'' \<mapsto> x5, ''success'' \<mapsto> x6]
      = [''mode'' \<mapsto> x1, ''stir_on'' \<mapsto> x2, ''heat_on'' \<mapsto> x3,
             ''heat_limit'' \<mapsto> x4, ''heat_alarm'' \<mapsto> x5, ''success'' \<mapsto> x6]" for x1 x2 x3 x4 x5 x6
    by (rule ext) (simp add: map_add_def)
  show ?thesis
    using assms
    by (simp add: parse_response_def len_rx_def Let_def info_fields_eq [OF l] nth m)
qed

lemma binary64_0: "binary64 0 = Fin 0" by (simp add: binary64_def)

lemma int_to_float_0: "int_to_float 0 = Inr (Fin 0)"
  by (simp add: int_to_float_def binary64_0)

text \<open>
  Claim C2, at data byte 0 equal to zero. This well-formed INFO response (marker, echo
  and checksum are right) decodes successfully to the mode \<open>"_"\<close>: index 0 of
  \<open>"_ABC"\<close> exists, so no exception reaches the handler that would turn it into
  ResponseParseException. The documented modes are A, B and C only.
\<close>

theorem parse_response_info_mode_zero:
  "\<exists>d. parse_response INFO [0xFD, 0xA1, 0x00, 0x00, 0x00, 0x00, 0x00, 0x00, 0x00, 0x00, 0xA1] = Inr d
       \<and> d ''mode'' = Some (PyStr ''_'') \<and> d ''success'' = Some (PyBool True)"
  by (simp add: parse_response_def len_rx_def checksum_def info_fields_def index_def bindE_def
      int_to_float_0 binary64_0)

section \<open>The codec: encoding a value\<close>

lemma binary64_2000: "binary64 2000 = Fin 2000"
  using binary64_u16 [of 2000] by simp

lemma float_to_int_trunc:
  assumes "float_to_int (Fin y) = Inr n"
  shows "\<bar>of_int n\<bar> \<le> \<bar>y\<bar> \<and> \<bar>y\<bar> < \<bar>of_int n\<bar> + 1 \<and> 0 \<le> of_int n * y"
proof (cases "0 \<le> y")
  case True
  with assms have n: "n = \<lfloor>y\<rfloor>" by simp
  from True have "0 \<le> n" unfolding n by simp
  moreover have "of_int n \<le> y" "y < of_int n + 1" unfolding n by linarith+
  ultimately show ?thesis using True by (simp add: abs_if)
next
  case False
  with assms have n: "n = \<lceil>y\<rceil>" by simp
  from False have y: "y < 0" by simp
  then have "n \<le> 0" unfolding n by (simp add: ceiling_le_iff)
  then have n0: "(of_int n :: rat) \<le> 0" by simp
  have b: "y \<le> of_int n" "of_int n - 1 < y" unfolding n by linarith+
  have "0 \<le> of_int n * y" using n0 y by (simp add: mult_nonpos_nonpos)
  moreover have "\<bar>of_int n :: rat\<bar> = - of_int n" using n0 by simp
  moreover have "\<bar>y\<bar> = - y" using y by simp
  ultimately show ?thesis using b by simp
qed

text \<open>
  Claim C6, amended. For STIR and HEAT, \<open>to_bytes\<close> raises ValueError exactly when no
  value is supplied, or the conversion of the value itself raises ValueError (\<open>int\<close> or
  \<open>float\<close> of a NaN or of a string that is no numeral), or the converted integer is
  outside \<open>[0, 65535]\<close>; and it returns a frame exactly when a value is supplied that
  converts to an integer in that range, which the frame then carries. The conversion is
  \<open>int(val)\<close> for STIR, an integer as it is, and \<open>int(float(val) * 10)\<close> for HEAT, the
  product truncated toward zero. HEAT 200.0 carries \<open>07 D0\<close>.
\<close>

theorem to_bytes_value:
  assumes "c \<in> {STIR, HEAT}"
  shows "(to_bytes R c val = Inl ValueError \<longleftrightarrow>
               val = PyNone \<or> format_value R c val = Inl ValueError
               \<or> (\<exists>n. format_value R c val = Inr n \<and> \<not> (0 \<le> n \<and> n \<le> 65535)))
         \<and> (to_bytes R c val = Inr fr \<longleftrightarrow>
               val \<noteq> PyNone
               \<and> (\<exists>n. format_value R c val = Inr n \<and> 0 \<le> n \<and> n \<le> 65535
                      \<and> fr = [0xFE, word_of_int (comm_value c),
                               word_of_int (n div 256), word_of_int (n mod 256), 0x00,
                               word_of_int ((comm_value c + n div 256 + n mod 256 + 0x00) mod 256)]))
         \<and> format_value R STIR (PyInt k) = Inr k
         \<and> format_value R HEAT (PyFloat x) = float_to_int (float_times10 x)
         \<and> (\<forall>y n. float_to_int (Fin y) = Inr n \<longrightarrow>
               \<bar>of_int n\<bar> \<le> \<bar>y\<bar> \<and> \<bar>y\<bar> < \<bar>of_int n\<bar> + 1 \<and> 0 \<le> of_int n * y)
         \<and> to_bytes R HEAT (PyFloat (Fin 200)) = Inr [0xFE, 0xB2, 0x07, 0xD0, 0x00, 0x89]"
proof -
  from assms have c: "c \<noteq> PING" "c \<noteq> INFO" "c \<noteq> STATUS" "c \<noteq> MODE" by auto
  have eq: "to_bytes R c val =
           (if val = PyNone then Inl ValueError
            else case format_value R c val of
                   Inl e \<Rightarrow> Inl e
                 | Inr n \<Rightarrow> if 0 \<le> n \<and> n \<le> 65535 then Inr (request_frame (comm_value c) n)
                            else Inl ValueError)"
    using c by (auto simp: to_bytes_def encode_frame_eq split: sum.splits)
  have iff: "to_bytes R c val = Inl ValueError \<longleftrightarrow>
               val = PyNone \<or> format_value R c val = Inl ValueError
               \<or> (\<exists>n. format_value R c val = Inr n \<and> \<not> (0 \<le> n \<and> n \<le> 65535))"
    unfolding eq by (cases "format_value R c val") auto
  have ok: "to_bytes R c val = Inr fr \<longleftrightarrow>
               val \<noteq> PyNone
               \<and> (\<exists>n. format_value R c val = Inr n \<and> 0 \<le> n \<and> n \<le> 65535
                      \<and> fr = [0xFE, word_of_int (comm_value c),
                               word_of_int (n div 256), word_of_int (n mod 256), 0x00,
                               word_of_int ((comm_value c + n div 256 + n mod 256 + 0x00) mod 256)])"
    unfolding eq request_frame_bytes by (cases "format_value R c val") auto
  have stir: "format_value R STIR (PyInt k) = Inr k"
    by (simp add: format_value_def)
  have heat: "format_value R HEAT (PyFloat x) = float_to_int (float_times10 x)"
    by (simp add: format_value_def)
  have ex: "to_bytes R HEAT (PyFloat (Fin 200)) = Inr [0xFE, 0xB2, 0x07, 0xD0, 0x00, 0x89]"
    by (simp add: to_bytes_def format_value_def binary64_2000 encode_frame_eq request_frame_def)
  from iff ok stir heat ex float_to_int_trunc show ?thesis by blast
qed

theorem to_bytes_value_witness:
  "HEAT \<in> {STIR, HEAT}
   \<and> format_value rt0 HEAT (PyFloat (Fin 200)) = Inr 2000
   \<and> to_bytes rt0 HEAT (PyFloat (Fin 200)) = Inr [0xFE, 0xB2, 0x07, 0xD0, 0x00, 0x89]
   \<and> format_value rt0 STIR (PyInt 70000) = Inr 70000
   \<and> to_bytes rt0 STIR (PyInt 70000) = Inl ValueError"
proof -
  have h: "HEAT \<in> {STIR, HEAT}" and s: "STIR \<in> {STIR, HEAT}" by simp_all
  have f: "format_value rt0 HEAT (PyFloat (Fin 200)) = Inr 2000"
    by (simp add: format_value_def binary64_2000)
  have g: "format_value rt0 STIR (PyInt 70000) = Inr 70000"
    by (simp add: format_value_def)
  from to_bytes_value [OF h, of rt0 "PyFloat (Fin 200)" "[0xFE, 0xB2, 0x07, 0xD0, 0x00, 0x89]",
      THEN conjunct2, THEN conjunct1] f
  have a: "to_bytes rt0 HEAT (PyFloat (Fin 200)) = Inr [0xFE, 0xB2, 0x07, 0xD0, 0x00, 0x89]"
    by simp
  from to_bytes_value [OF s, of rt0 "PyInt 70000", THEN conjunct1] g
  have b: "to_bytes rt0 STIR (PyInt 70000) = Inl ValueError" by simp
  from h f a g b show ?thesis by (intro conjI)
qed

text \<open>
  Claim C6 as stated fails: a NaN, or the string \<open>"Off"\<close>, is a supplied value for
  which ValueError is raised by the conversion itself, with no encoded integer.
\<close>

theorem to_bytes_value_counterexample:
  "to_bytes rt0 HEAT (PyFloat NaN) = Inl ValueError
   \<and> PyFloat NaN \<noteq> PyNone
   \<and> format_value rt0 HEAT (PyFloat NaN) = Inl ValueError
   \<and> to_bytes rt0 STIR (PyStr ''Off'') = Inl ValueError
   \<and> PyStr ''Off'' \<noteq> PyNone
   \<and> format_value rt0 STIR (PyStr ''Off'') = Inl ValueError"
  by (simp add: to_bytes_def format_value_def rt0_def)

section \<open>The duplex connection's result\<close>

text \<open>
  Claim C9. Reading the result: a stored exception is raised first; otherwise a live
  reader thread gives ReadingNotCompleteException; otherwise no stored value gives
  NoCommunicationException; otherwise an empty value gives NoDataException; otherwise
  the bytes are returned.
\<close>

theorem rx_result_order:
  "(rx_exception s = Some e \<longrightarrow> rx_result s = Inl e)
   \<and> (rx_exception s = None \<and> rx_thread s = Some True
        \<longrightarrow> rx_result s = Inl ReadingNotCompleteException)
   \<and> (rx_exception s = None \<and> rx_thread s \<noteq> Some True \<and> rx_value s = None
        \<longrightarrow> rx_result s = Inl NoCommunicationException)
   \<and> (rx_exception s = None \<and> rx_thread s \<noteq> Some True \<and> rx_value s = Some []
        \<longrightarrow> rx_result s = Inl NoDataException)
   \<and> (rx_exception s = None \<and> rx_thread s \<noteq> Some True \<and> rx_value s = Some v \<and> v \<noteq> []
        \<longrightarrow> rx_result s = Inr v)"
  by (simp add: rx_result_def rx_raise_def bindE_def)

theorem rx_result_order_witness:
  "rx_result \<lparr>rx_thread = Some True, rx_value = None, rx_exception = Some (SerialError ''timeout'')\<rparr>
     = Inl (SerialError ''timeout'')
   \<and> rx_result \<lparr>rx_thread = Some True, rx_value = None, rx_exception = None\<rparr>
     = Inl ReadingNotCompleteException
   \<and> rx_result \<lparr>rx_thread = None, rx_value = None, rx_exception = None\<rparr>
     = Inl NoCommunicationException
   \<and> rx_result \<lparr>rx_thread = Some False, rx_value = Some [], rx_exception = None\<rparr>
     = Inl NoDataException
   \<and> rx_result \<lparr>rx_thread = Some False, rx_value = Some [0xFD], rx_exception = None\<rparr>
     = Inr [0xFD]"
  using rx_result_order [of "\<lparr>rx_thread = Some True, rx_value = None, rx_exception = Some (SerialError ''timeout'')\<rparr>" "SerialError ''timeout''"]
    rx_result_order [of "\<lparr>rx_thread = Some True, rx_value = None, rx_exception = None\<rparr>"]
    rx_result_order [of "\<lparr>rx_thread = None, rx_value = None, rx_exception = None\<rparr>"]
    rx_result_order [of "\<lparr>rx_thread = Some False, rx_value = Some [], rx_exception = None\<rparr>"]
    rx_result_order [of "\<lparr>rx_thread = Some False, rx_value = Some [0xFD], rx_exception = None\<rparr>" _ "[0xFD]"]
  by simp

section \<open>The sequencer: statements in sequence, one command\<close>

lemma bindS_returnS: "bindS (returnS x) f s = f x s"
  by (simp add: bindS_def returnS_def)

lemma bindS_raiseS: "bindS (raiseS e) f s = (Inl e, s)"
  by (simp add: bindS_def raiseS_def)

lemma bindS_liftE_Inr: "bindS (liftE (Inr x)) f s = f x s"
  by (simp add: bindS_def liftE_def)

lemma bindS_liftE_Inl: "bindS (liftE (Inl e)) f s = (Inl e, s)"
  by (simp add: bindS_def liftE_def)

lemma bindS_Inr: "m s = (Inr x, s1) \<Longrightarrow> bindS m f s = f x s1"
  by (simp add: bindS_def)

lemma bindS_Inl: "m s = (Inl e, s1) \<Longrightarrow> bindS m f s = (Inl e, s1)"
  by (simp add: bindS_def)

lemma getitem_Some: "d k = Some v \<Longrightarrow> getitem d k = Inr v"
  by (simp add: getitem_def)

lemma getitem_None: "d k = None \<Longrightarrow> getitem d k = Inl KeyError"
  by (simp add: getitem_def)

text \<open>What one command does to the log, and what it returns.\<close>

lemma serial_open_sent: "sent (snd (serial_open P s)) = sent s"
  by (simp add: serial_open_def split: prod.splits)

lemma command_cases:
  assumes "command R P c var d s = (r, s')"
  shows "(sent s' = sent s \<and> (\<exists>e. r = Inl e))
       \<or> (\<exists>w. to_bytes R c var = Inr w \<and> sent s' = sent s @ [w]
              \<and> (\<forall>x. r = Inr x \<longrightarrow> (\<exists>rb parsed. parse_response c rb = Inr parsed \<and> x = d ++ parsed)))"
proof -
  obtain ro so where o: "serial_open P s = (ro, so)" by (cases "serial_open P s")
  have so: "sent so = sent s" using serial_open_sent [of P s] o by simp
  show ?thesis
  proof (cases ro)
    case (Inl e)
    with assms o so show ?thesis by (auto simp: command_def bindS_def)
  next
    case (Inr u)
    show ?thesis
    proof (cases "to_bytes R c var")
      case (Inl e)
      with assms o so Inr show ?thesis by (auto simp: command_def bindS_def liftE_def)
    next
      case w: (Inr w)
      obtain rw sw where ww: "write_with_read P w (len_rx c) so = (rw, sw)"
        by (cases "write_with_read P w (len_rx c) so")
      then have sw: "sent sw = sent s @ [w]"
        using so by (auto simp: write_with_read_def split: prod.splits)
      from assms o Inr w ww have "r = (case rw of Inl e \<Rightarrow> Inl e
              | Inr rb \<Rightarrow> (case parse_response c rb of Inl e \<Rightarrow> Inl e | Inr p \<Rightarrow> Inr (d ++ p)))
          \<and> s' = sw"
        by (auto simp: command_def bindS_def liftE_def returnS_def split: sum.splits)
      with w sw show ?thesis by (auto split: sum.splits)
    qed
  qed
qed

lemma bindS_returnS_right: "bindS m returnS = m"
  by (rule ext) (auto simp: bindS_def returnS_def split: prod.splits sum.splits)


section \<open>The sequencer: the normalized status\<close>

lemma bindE_Inr_iff:
  "bindE m f = Inr y \<longleftrightarrow> (\<exists>x. m = Inr x \<and> f x = Inr y)"
  by (cases m) (simp_all add: bindE_def)

lemma info_fields_keys:
  assumes "info_fields b = Inr d"
  shows "\<exists>h st a. d ''heat_on'' = Some (PyBool h) \<and> d ''stir_on'' = Some (PyBool st)
           \<and> d ''heat_alarm'' = Some (PyBool a)"
  using assms unfolding info_fields_def bindE_Inr_iff by auto

lemma parse_info_keys:
  assumes "parse_response INFO rb = Inr p"
  shows "\<exists>h st a. (d ++ p) ''heat_on'' = Some (PyBool h) \<and> (d ++ p) ''stir_on'' = Some (PyBool st)
           \<and> (d ++ p) ''heat_alarm'' = Some (PyBool a)"
proof -
  from assms obtain f where f: "info_fields (drop 2 (butlast rb)) = Inr f"
    and p: "p = [''success'' \<mapsto> PyBool False] ++ f"
    by (auto simp: parse_response_def Let_def split: if_splits sum.splits)
  from info_fields_keys [OF f] show ?thesis unfolding p by (auto simp: map_add_def)
qed

lemma status_raw_parts:
  assumes "status R P True s = (Inr r, s')"
  shows "\<exists>r1 s1. command R P STATUS PyNone Map.empty s = (Inr r1, s1)
           \<and> command R P INFO PyNone r1 s1 = (Inr r, s')"
  using assms
  by (auto simp: status_def bindS_def returnS_def split: prod.splits sum.splits)

lemma status_raw_keys:
  assumes "status R P True s = (Inr r, s')"
  shows "\<exists>h st a. r ''heat_on'' = Some (PyBool h) \<and> r ''stir_on'' = Some (PyBool st)
           \<and> r ''heat_alarm'' = Some (PyBool a)"
proof -
  from status_raw_parts [OF assms] obtain r1 s1
    where c: "command R P INFO PyNone r1 s1 = (Inr r, s')" by blast
  from command_cases [OF c] obtain rb parsed
    where "parse_response INFO rb = Inr parsed" "r = r1 ++ parsed" by auto
  with parse_info_keys [of rb parsed r1] show ?thesis by simp
qed

text \<open>
  Claim C10. When the raw status read returns \<open>r\<close>, the normalized read returns, in
  the same state, \<open>r\<close> with \<open>heat_set\<close> replaced by \<open>"Off"\<close> exactly when \<open>heat_on\<close> is
  false and \<open>stir_set\<close> replaced by \<open>"Off"\<close> exactly when \<open>stir_on\<close> is false; every other
  key keeps its raw value, and \<open>heat_alarm\<close> is present.
\<close>

theorem status_normalized:
  assumes "status R P True s = (Inr r, s')"
  shows "\<exists>heat_on stir_on.
           r ''heat_on'' = Some (PyBool heat_on) \<and> r ''stir_on'' = Some (PyBool stir_on)
         \<and> r ''heat_alarm'' \<noteq> None
         \<and> status R P False s =
             (Inr (\<lambda>k. if k = ''heat_set'' \<and> \<not> heat_on then Some (PyStr ''Off'')
                       else if k = ''stir_set'' \<and> \<not> stir_on then Some (PyStr ''Off'')
                       else r k), s')"
proof -
  from status_raw_keys [OF assms] obtain h st a
    where k: "r ''heat_on'' = Some (PyBool h)" "r ''stir_on'' = Some (PyBool st)"
      "r ''heat_alarm'' = Some (PyBool a)" by blast
  from status_raw_parts [OF assms] obtain r1 s1
    where c1: "command R P STATUS PyNone Map.empty s = (Inr r1, s1)"
      and c2: "command R P INFO PyNone r1 s1 = (Inr r, s')" by blast
  have m: "(\<lambda>k. if k = ''heat_set'' \<and> \<not> h then Some (PyStr ''Off'')
                       else if k = ''stir_set'' \<and> \<not> st then Some (PyStr ''Off'')
                       else r k)
        = (let r = (if \<not> h then r(''heat_set'' \<mapsto> PyStr ''Off'') else r)
           in if \<not> st then r(''stir_set'' \<mapsto> PyStr ''Off'') else r)"
    by (rule ext) (simp add: Let_def)
  have "status R P False s =
      (Inr (let r = (if \<not> h then r(''heat_set'' \<mapsto> PyStr ''Off'') else r)
           in if \<not> st then r(''stir_set'' \<mapsto> PyStr ''Off'') else r), s')"
    unfolding status_def bindS_Inr [of "command R P STATUS PyNone Map.empty", OF c1]
      bindS_Inr [of "command R P INFO PyNone r1", OF c2]
    using k by (simp add: getitem_def bindS_liftE_Inr returnS_def Let_def)
  with k m show ?thesis by auto
qed

lemma run_status_raw:
  "case status rt0 scripted True (start [Inr st_stir200, Inr inf_stir_on]) of
     (Inr r, s1) \<Rightarrow>
        s1 = \<lparr>serial = [],
              sent = [[0xFE, 0xA2, 0x00, 0x00, 0x00, 0xA2], [0xFE, 0xA1, 0x00, 0x00, 0x00, 0xA1]]\<rparr>
        \<and> r ''stir_set'' = Some (PyInt 200) \<and> r ''stir_on'' = Some (PyBool True)
        \<and> r ''heat_set'' = Some (PyFloat (Fin 0)) \<and> r ''heat_on'' = Some (PyBool False)
        \<and> r ''heat_alarm'' = Some (PyBool True) \<and> r ''mode'' = Some (PyStr ''A'')
   | (Inl e, s1) \<Rightarrow> False"
  by (simp add: status_def st_stir200_def inf_stir_on_def
      command_def bindS_def liftE_def returnS_def raiseS_def serial_open_def
      write_with_read_def scripted_def start_def to_bytes_def parse_response_def len_rx_def
      checksum_def status_fields_def info_fields_def index_def bindE_def getitem_def
      int_to_float_u16 binary64_0 Let_def)

theorem status_normalized_witness:
  "\<exists>r'. status rt0 scripted False (start [Inr st_stir200, Inr inf_stir_on])
          = (Inr r', \<lparr>serial = [],
                sent = [[0xFE, 0xA2, 0x00, 0x00, 0x00, 0xA2], [0xFE, 0xA1, 0x00, 0x00, 0x00, 0xA1]]\<rparr>)
        \<and> r' ''heat_set'' = Some (PyStr ''Off'') \<and> r' ''stir_set'' = Some (PyInt 200)
        \<and> r' ''heat_alarm'' = Some (PyBool True) \<and> r' ''mode'' = Some (PyStr ''A'')"
proof -
  let ?s = "start [Inr st_stir200, Inr inf_stir_on]"
  obtain x s1 where rs: "status rt0 scripted True ?s = (x, s1)"
    by (cases "status rt0 scripted True ?s")
  from run_status_raw obtain r
    where x: "x = Inr r"
      and s1: "s1 = \<lparr>serial = [],
              sent = [[0xFE, 0xA2, 0x00, 0x00, 0x00, 0xA2], [0xFE, 0xA1, 0x00, 0x00, 0x00, 0xA1]]\<rparr>"
      and k: "r ''stir_set'' = Some (PyInt 200)" "r ''stir_on'' = Some (PyBool True)"
        "r ''heat_set'' = Some (PyFloat (Fin 0))" "r ''heat_on'' = Some (PyBool False)"
        "r ''heat_alarm'' = Some (PyBool True)" "r ''mode'' = Some (PyStr ''A'')"
    unfolding rs by (cases x) simp_all
  have st: "status rt0 scripted True ?s = (Inr r, s1)" using rs x by simp
  from status_normalized [OF st] obtain heat_on stir_on
    where h: "r ''heat_on'' = Some (PyBool heat_on)" "r ''stir_on'' = Some (PyBool stir_on)"
      and n: "status rt0 scripted False ?s =
             (Inr (\<lambda>k. if k = ''heat_set'' \<and> \<not> heat_on then Some (PyStr ''Off'')
                       else if k = ''stir_set'' \<and> \<not> stir_on then Some (PyStr ''Off'')
                       else r k), s1)"
    by blast
  from h k have "heat_on = False" "stir_on = True" by simp_all
  with n k s1 show ?thesis by simp
qed

section \<open>The sequencer on a recording port\<close>

lemma transcript_serial_open:
  "transcript (snd (serial_open (recording P) s)) = transcript s"
  by (cases "serial s")
    (simp add: serial_open_def recording_def transcript_def split: prod.splits)

lemma transcript_write_with_read:
  "\<exists>r s'. write_with_read (recording P) w n s = (r, s')
          \<and> transcript s' = transcript s @ [(w, n, r)]"
  by (cases "serial s")
    (simp add: write_with_read_def recording_def transcript_def split: prod.splits)


lemma command_exchange:
  assumes "fst (serial_open (recording P) s) = Inr ()"
    and "to_bytes R c var = Inr w"
  shows "\<exists>r s'. command R (recording P) c var d s
                  = (bindE r (\<lambda>r_bytes. bindE (parse_response c r_bytes) (\<lambda>p. Inr (d ++ p))), s')
          \<and> transcript s' = transcript s @ [(w, len_rx c, r)]"
proof -
  obtain so where o: "serial_open (recording P) s = (Inr (), so)"
    using assms(1) by (cases "serial_open (recording P) s") auto
  have so: "transcript so = transcript s" using transcript_serial_open [of P s] o by simp
  from transcript_write_with_read [of P w "len_rx c" so] obtain r sw
    where ww: "write_with_read (recording P) w (len_rx c) so = (r, sw)"
      and sw: "transcript sw = transcript so @ [(w, len_rx c, r)]" by blast
  have "command R (recording P) c var d s
      = (bindE r (\<lambda>r_bytes. bindE (parse_response c r_bytes) (\<lambda>p. Inr (d ++ p))), sw)"
    using o assms(2) ww
    by (auto simp: command_def bindS_def liftE_def returnS_def bindE_def split: sum.splits)
  with sw so show ?thesis by auto
qed

lemma send_exchange:
  assumes "fst (serial_open (recording P) s) = Inr ()"
    and "to_bytes R c v = Inr w"
  shows "\<exists>r s'. send R (recording P) c v s = (reply_outcome c r, s')
          \<and> transcript s' = transcript s @ [(w, len_rx c, r)]"
proof -
  from command_exchange [OF assms, of Map.empty] obtain r s'
    where c: "command R (recording P) c v Map.empty s
                  = (bindE r (\<lambda>r_bytes. bindE (parse_response c r_bytes) (\<lambda>p. Inr (Map.empty ++ p))), s')"
      and t: "transcript s' = transcript s @ [(w, len_rx c, r)]" by blast
  have "send R (recording P) c v s = (reply_outcome c r, s')"
    unfolding send_def reply_outcome_def
    using c by (auto simp: bindS_def liftE_def returnS_def bindE_def split: sum.splits)
  with t show ?thesis by blast
qed

section \<open>The set values of a status read\<close>

text \<open>
  Rounding to binary64 keeps a non-negative rational below \<open>2 ^ 52\<close> under any bound
  that is half an integer, since such a bound is itself a float.
\<close>

lemma round_half_even_le:
  assumes "z \<le> of_int K"
  shows "round_half_even z \<le> K"
proof -
  have f: "\<lfloor>z\<rfloor> \<le> K" using assms by (simp add: floor_le_iff) 
  show ?thesis
  proof (cases "\<lfloor>z\<rfloor> = K")
    case True
    have "of_int \<lfloor>z\<rfloor> \<le> z" by simp
    with True assms have "z = of_int K" by simp
    then show ?thesis by (simp add: round_half_even_def)
  next
    case False
    with f have "\<lfloor>z\<rfloor> + 1 \<le> K" by simp
    then show ?thesis using f by (simp add: round_half_even_def Let_def)
  qed
qed

lemma round_half_even_nonneg:
  assumes "0 \<le> z"
  shows "0 \<le> round_half_even z"
proof -
  have "0 \<le> \<lfloor>z\<rfloor>" using assms by simp
  then show ?thesis by (simp add: round_half_even_def Let_def)
qed

lemma binary64_bounded:
  assumes "0 \<le> x" "x \<le> of_int m / 2" "m < 2 ^ 53"
  shows "\<exists>y. binary64 x = Fin y \<and> 0 \<le> y \<and> y \<le> of_int m / 2"
proof (cases "x = 0")
  case True
  with assms show ?thesis by (simp add: binary64_def)
next
  case False
  with assms have pos: "0 < x" by simp
  have m52: "rat_of_int m / 2 < 2 ^ 52"
  proof -
    have "rat_of_int m < of_int (2 ^ 53)" using assms(3) by (simp only: of_int_less_iff)
    then show ?thesis by simp
  qed
  have x52: "x < 2 ^ 52" using assms(2) m52 by simp
  define e where "e = max (ilog2 x) (- 1022)"
  have il: "ilog2 x \<le> 51"
  proof (cases "1 \<le> x")
    case True
    have "\<lfloor>x\<rfloor> < 2 ^ 52" using x52 by (simp add: floor_less_iff)
    then have "bitlen \<lfloor>x\<rfloor> \<le> 52" by (simp add: bitlen_le_iff_power)
    with True show ?thesis by (simp add: ilog2_def)
  next
    case False
    have "0 \<le> bitlen (\<lceil>1 / x\<rceil> - 1)" by (rule bitlen_nonneg)
    with False show ?thesis by (simp add: ilog2_def)
  qed
  then have e: "e \<le> 51" "- 1022 \<le> e" by (simp_all add: e_def)
  define k where "k = nat (51 - e)"
  have u: "pow2 (e - 52) = 1 / 2 ^ Suc k"
  proof -
    have "nat (- (e - 52)) = Suc k" using e by (simp add: k_def)
    moreover have "\<not> 0 \<le> e - 52" using e by simp
    ultimately show ?thesis unfolding pow2_def by (simp del: power_Suc)
  qed
  define K where "K = m * 2 ^ k"
  have Ku: "of_int K * (1 / 2 ^ Suc k) = rat_of_int m / 2" by (simp add: K_def)
  have zK: "x / (1 / 2 ^ Suc k) \<le> of_int K"
  proof -
    have "x * 2 ^ Suc k \<le> (of_int m / 2) * 2 ^ Suc k"
      using assms(2) by (rule mult_right_mono) simp
    then show ?thesis by (simp add: K_def)
  qed
  have z0: "0 \<le> x / (1 / 2 ^ Suc k)" using pos by simp
  define q where "q = round_half_even (x / (1 / 2 ^ Suc k))"
  have q: "0 \<le> q" "q \<le> K"
    using round_half_even_nonneg [OF z0] round_half_even_le [OF zK] by (simp_all add: q_def)
  define y where "y = of_int q * (1 / 2 ^ Suc k :: rat)"
  have y0: "0 \<le> y" using q(1) by (simp add: y_def)
  have yK: "y \<le> of_int m / 2"
  proof -
    have "of_int q * (1 / 2 ^ Suc k :: rat) \<le> of_int K * (1 / 2 ^ Suc k)"
      using q(2) by (intro mult_right_mono) simp_all
    then show ?thesis unfolding y_def Ku .
  qed
  have lt: "\<not> pow2 1024 \<le> y"
  proof -
    have "y < 2 ^ 52" using yK m52 by simp
    also have "(2::rat) ^ 52 \<le> 2 ^ 1024" by (rule power_increasing) simp_all
    finally show ?thesis by (simp add: pow2_def)
  qed
  have ax: "\<bar>x\<bar> = x" using pos by simp
  have "binary64 x = Fin y"
    unfolding binary64_def Let_def ax e_def [symmetric] u q_def [symmetric] y_def [symmetric]
    using pos lt by simp
  with y0 yK show ?thesis by blast
qed

text \<open>
  A set value decoded from a STATUS reply is one \<open>to_bytes\<close> accepts: the stir target is
  an integer of 16 bits, and the heat target, a float within half a unit in the last
  place of a 16-bit integer over ten, converts back into \<open>[0, 65535]\<close>.
\<close>

lemma to_bytes_stir_u16:
  assumes "0 \<le> n" "n < 65536"
  shows "\<exists>w. to_bytes R STIR (PyInt n) = Inr w"
  using assms by (simp add: to_bytes_def format_value_def encode_frame_eq)

lemma to_bytes_heat_u16:
  assumes "0 \<le> n" "n < 65536"
  shows "\<exists>w. to_bytes R HEAT (PyFloat (float_div10 (Fin (of_int n)))) = Inr w"
proof -
  have a: "0 \<le> rat_of_int n / 10" using assms by simp
  have b: "rat_of_int n / 10 \<le> of_int 13107 / 2"
  proof -
    have "rat_of_int n \<le> 65535" using assms by simp
    then show ?thesis by simp
  qed
  from binary64_bounded [OF a b] obtain y
    where y: "binary64 (rat_of_int n / 10) = Fin y" "0 \<le> y" "y \<le> of_int 13107 / 2" by auto
  have c: "0 \<le> y * 10" using y(2) by simp
  have d: "y * 10 \<le> of_int 131070 / 2" using y(3) by simp
  from binary64_bounded [OF c d] obtain z
    where z: "binary64 (y * 10) = Fin z" "0 \<le> z" "z \<le> of_int 131070 / 2" by auto
  have f0: "0 \<le> \<lfloor>z\<rfloor>" using z(2) by simp
  have f1: "\<lfloor>z\<rfloor> \<le> 65535" using z(3) by (simp add: floor_le_iff)
  have "format_value R HEAT (PyFloat (float_div10 (Fin (of_int n)))) = Inr \<lfloor>z\<rfloor>"
    using y(1) z(1) z(2) by (simp add: format_value_def)
  with f0 f1 show ?thesis by (simp add: to_bytes_def encode_frame_eq)
qed

lemma parse_status_sets:
  assumes "parse_response STATUS rb = Inr p"
  shows "\<exists>n m. 0 \<le> n \<and> n < 65536 \<and> 0 \<le> m \<and> m < 65536
           \<and> p ''stir_set'' = Some (PyInt n)
           \<and> p ''heat_set'' = Some (PyFloat (float_div10 (Fin (of_int m))))
           \<and> dom p = {''success'', ''stir_set'', ''stir_actual'', ''heat_set'', ''heat_actual''}"
proof -
  from assms obtain f where f: "status_fields (drop 2 (butlast rb)) = Inr f"
    and p: "p = [''success'' \<mapsto> PyBool False] ++ f"
    by (auto simp: parse_response_def Let_def split: if_splits sum.splits)
  from f obtain b0 b1 b2 b3 b4 b5 b6 b7 :: byte and hs ha
    where hs: "int_to_float (push_bit 8 (uint b4) + uint b5) = Inr hs"
      and ff: "f = [''stir_set'' \<mapsto> PyInt (push_bit 8 (uint b0) + uint b1),
            ''stir_actual'' \<mapsto> PyInt (push_bit 8 (uint b2) + uint b3),
            ''heat_set'' \<mapsto> PyFloat (float_div10 hs),
            ''heat_actual'' \<mapsto> PyFloat (float_div10 ha),
            ''success'' \<mapsto> PyBool True]"
    unfolding status_fields_def bindE_Inr_iff by auto
  note r1 = u16_range [of b0 b1]
  note r2 = u16_range [of b4 b5]
  from hs r2 have hs': "hs = Fin (of_int (push_bit 8 (uint b4) + uint b5))"
    by (simp add: int_to_float_u16)
  have d: "dom p = {''success'', ''stir_set'', ''stir_actual'', ''heat_set'', ''heat_actual''}"
    unfolding p ff by auto
  have "p ''stir_set'' = Some (PyInt (push_bit 8 (uint b0) + uint b1))"
    "p ''heat_set'' = Some (PyFloat (float_div10 (Fin (of_int (push_bit 8 (uint b4) + uint b5)))))"
    unfolding p ff hs' by (simp_all add: map_add_def)
  with r1 r2 d show ?thesis by blast
qed

lemma parse_info_dom:
  assumes "parse_response INFO rb = Inr p"
  shows "dom p = {''success'', ''mode'', ''stir_on'', ''heat_on'', ''heat_limit'', ''heat_alarm''}"
proof -
  from assms obtain f where f: "info_fields (drop 2 (butlast rb)) = Inr f"
    and p: "p = [''success'' \<mapsto> PyBool False] ++ f"
    by (auto simp: parse_response_def Let_def split: if_splits sum.splits)
  from f obtain x1 x2 x3 x4 x5 x6
    where ff: "f = [''mode'' \<mapsto> x1, ''stir_on'' \<mapsto> x2, ''heat_on'' \<mapsto> x3,
            ''heat_limit'' \<mapsto> x4, ''heat_alarm'' \<mapsto> x5, ''success'' \<mapsto> x6]"
    unfolding info_fields_def bindE_Inr_iff by auto
  show ?thesis unfolding p ff by auto
qed

lemma status_raw_replies:
  assumes "status R P True s = (Inr cs, s1)"
  shows "\<exists>rb1 p1 rb2 p2. parse_response STATUS rb1 = Inr p1 \<and> parse_response INFO rb2 = Inr p2
           \<and> cs = p1 ++ p2"
proof -
  from status_raw_parts [OF assms] obtain r1 sa
    where c1: "command R P STATUS PyNone Map.empty s = (Inr r1, sa)"
      and c2: "command R P INFO PyNone r1 sa = (Inr cs, s1)" by blast
  from command_cases [OF c1] obtain rb1 p1
    where p1: "parse_response STATUS rb1 = Inr p1" "r1 = Map.empty ++ p1" by auto
  from command_cases [OF c2] obtain rb2 p2
    where p2: "parse_response INFO rb2 = Inr p2" "cs = r1 ++ p2" by auto
  from p1 p2 show ?thesis by auto
qed

lemma status_set_value:
  assumes "status R P True s = (Inr cs, s1)"
    and "cs (name_lower c @ ''_set'') = Some set_value"
  shows "(c = STIR \<and> (\<exists>n. 0 \<le> n \<and> n < 65536 \<and> set_value = PyInt n))
       \<or> (c = HEAT \<and> (\<exists>m. 0 \<le> m \<and> m < 65536
                           \<and> set_value = PyFloat (float_div10 (Fin (of_int m)))))"
proof -
  from status_raw_replies [OF assms(1)] obtain rb1 p1 rb2 p2
    where p1: "parse_response STATUS rb1 = Inr p1" and p2: "parse_response INFO rb2 = Inr p2"
      and cs: "cs = p1 ++ p2" by blast
  from parse_status_sets [OF p1] obtain n m
    where nm: "0 \<le> n" "n < 65536" "0 \<le> m" "m < 65536"
      and s1: "p1 ''stir_set'' = Some (PyInt n)"
      and s2: "p1 ''heat_set'' = Some (PyFloat (float_div10 (Fin (of_int m))))"
      and d1: "dom p1 = {''success'', ''stir_set'', ''stir_actual'', ''heat_set'', ''heat_actual''}"
    by (elim exE conjE)
  note d2 = parse_info_dom [OF p2]
  have "name_lower c @ ''_set'' \<in> dom cs" by (rule domI) (rule assms(2))
  then have k: "name_lower c @ ''_set'' \<in> dom p1 \<union> dom p2" unfolding cs by auto
  have a: "''stir_set'' \<notin> dom p2" unfolding d2 by simp
  have b: "''heat_set'' \<notin> dom p2" unfolding d2 by simp
  have n2: "p2 ''stir_set'' = None" "p2 ''heat_set'' = None"
    using a b by (simp_all only: domIff not_not)
  show ?thesis
  proof (cases c)
    case STIR
    have "cs ''stir_set'' = p1 ''stir_set''" unfolding cs by (simp add: map_add_def n2)
    with assms(2) s1 STIR have "set_value = PyInt n" by simp
    with STIR nm(1,2) show ?thesis by (intro disjI1 conjI exI [of _ n]) simp_all
  next
    case HEAT
    have "cs ''heat_set'' = p1 ''heat_set''" unfolding cs by (simp add: map_add_def n2)
    with assms(2) s2 HEAT have "set_value = PyFloat (float_div10 (Fin (of_int m)))" by simp
    with HEAT nm(3,4) show ?thesis by (intro disjI2 conjI exI [of _ m]) simp_all
  next
    case PING
    with k show ?thesis unfolding d1 d2 by simp
  next
    case INFO
    with k show ?thesis unfolding d1 d2 by simp
  next
    case STATUS
    with k show ?thesis unfolding d1 d2 by simp
  next
    case MODE
    with k show ?thesis unfolding d1 d2 by simp
  qed
qed

lemma status_set_encodable:
  assumes "status R P True s = (Inr cs, s1)"
    and "cs (name_lower c @ ''_set'') = Some set_value"
  shows "\<exists>w. to_bytes R c set_value = Inr w"
proof -
  from status_set_value [OF assms]
  consider n where "c = STIR" "0 \<le> n" "n < 65536" "set_value = PyInt n"
    | m where "c = HEAT" "0 \<le> m" "m < 65536" "set_value = PyFloat (float_div10 (Fin (of_int m)))"
    by (elim disjE exE conjE)
  then show ?thesis
  proof cases
    case 1
    with to_bytes_stir_u16 [of n R] show ?thesis by simp
  next
    case 2
    with to_bytes_heat_u16 [of m R] show ?thesis by simp
  qed
qed

section \<open>The sequencer: setting a value on a toggling channel\<close>

lemma setval_after_status:
  assumes st: "status R P True s = (Inr cs, s1)"
    and sv: "cs (name_lower c @ ''_set'') = Some set_value"
    and on: "cs (name_lower c @ ''_on'') = Some on_status"
    and v: "v = (if target = PyNone then set_value else target)"
  shows "setval R P c target s =
     (if py_eq set_value v then
        (if truthy on_status then (Inr True, s1) else send R P c set_value s1)
      else
        bindS (send R P c v) (\<lambda>ok.
          if \<not> ok then returnS False
          else if \<not> truthy on_status then returnS True
          else send R P c v) s1)"
proof -
  have g1: "getitem cs (name_lower c @ ''_set'') = Inr set_value"
    using sv by (simp add: getitem_def)
  have g2: "getitem cs (name_lower c @ ''_on'') = Inr on_status"
    using on by (simp add: getitem_def)
  show ?thesis
    unfolding setval_def bindS_Inr [of "status R P True", OF st] v
    by (simp add: g1 g2 bindS_liftE_Inr bindS_returnS_right returnS_def Let_def cong: if_cong)
qed

text \<open>
  Claim C1, amended. \<open>__setval\<close> has read the raw status: \<open>set_value\<close> and \<open>on_status\<close> of
  the channel; \<open>v\<close> is the value asked for, the set value when none is given. On a port
  that opens without error: with \<open>v\<close> equal to \<open>set_value\<close> and the channel on, it
  returns True and makes no exchange (the state is the one after the status read);
  equal and off, it makes exactly one exchange, carrying the set value, which
  \<open>to_bytes\<close> always accepts; different and off, \<open>to_bytes\<close> accepting \<open>v\<close>, exactly one,
  carrying \<open>v\<close>; different and on, \<open>to_bytes\<close> accepting \<open>v\<close>, exactly two carrying \<open>v\<close>
  when the reply to the first one decodes to success, and only the first one when it
  does not. The result is decided by the reply to the last exchange made: its
  exception, or the truth of \<open>success\<close>.
\<close>

theorem setval_transactions:
  fixes P :: "'d serial_io"
  assumes opens: "\<And>x. fst (serial_open (recording P) x) = Inr ()"
    and st: "status R (recording P) True s = (Inr cs, s1)"
    and sv: "cs (name_lower c @ ''_set'') = Some set_value"
    and on: "cs (name_lower c @ ''_on'') = Some on_status"
    and v: "v = (if target = PyNone then set_value else target)"
  shows "(py_eq set_value v \<and> truthy on_status \<longrightarrow>
            setval R (recording P) c target s = (Inr True, s1))
       \<and> (py_eq set_value v \<and> \<not> truthy on_status \<longrightarrow>
            (\<exists>w r. to_bytes R c set_value = Inr w
               \<and> transcript (snd (setval R (recording P) c target s))
                   = transcript s1 @ [(w, len_rx c, r)]
               \<and> fst (setval R (recording P) c target s) = reply_outcome c r))
       \<and> (\<not> py_eq set_value v \<and> \<not> truthy on_status \<longrightarrow>
            (\<forall>w. to_bytes R c v = Inr w \<longrightarrow>
               (\<exists>r. transcript (snd (setval R (recording P) c target s))
                       = transcript s1 @ [(w, len_rx c, r)]
                  \<and> fst (setval R (recording P) c target s) = reply_outcome c r)))
       \<and> (\<not> py_eq set_value v \<and> truthy on_status \<longrightarrow>
            (\<forall>w. to_bytes R c v = Inr w \<longrightarrow>
               (\<exists>r1.
                  (reply_outcome c r1 = Inr True \<longrightarrow>
                     (\<exists>r2. transcript (snd (setval R (recording P) c target s))
                             = transcript s1 @ [(w, len_rx c, r1), (w, len_rx c, r2)]
                        \<and> fst (setval R (recording P) c target s) = reply_outcome c r2))
                \<and> (reply_outcome c r1 \<noteq> Inr True \<longrightarrow>
                     transcript (snd (setval R (recording P) c target s))
                       = transcript s1 @ [(w, len_rx c, r1)]
                     \<and> fst (setval R (recording P) c target s)
                         = (case reply_outcome c r1 of
                              Inl e \<Rightarrow> Inl e | Inr ok \<Rightarrow> Inr False)))))"
proof -
  note u = setval_after_status [OF st sv on v]
  have a: "setval R (recording P) c target s = (Inr True, s1)"
    if "py_eq set_value v" "truthy on_status"
    using that by (simp add: u)
  have b: "\<exists>w r. to_bytes R c set_value = Inr w
               \<and> transcript (snd (setval R (recording P) c target s))
                   = transcript s1 @ [(w, len_rx c, r)]
               \<and> fst (setval R (recording P) c target s) = reply_outcome c r"
    if h: "py_eq set_value v" "\<not> truthy on_status"
  proof -
    from status_set_encodable [OF st sv] obtain w where w: "to_bytes R c set_value = Inr w" ..
    from send_exchange [OF opens w, of s1] obtain r s2
      where r: "send R (recording P) c set_value s1 = (reply_outcome c r, s2)"
        and t: "transcript s2 = transcript s1 @ [(w, len_rx c, r)]" by blast
    have "setval R (recording P) c target s = (reply_outcome c r, s2)"
      using h r by (simp add: u)
    with w t show ?thesis by simp
  qed
  have c: "\<exists>r. transcript (snd (setval R (recording P) c target s))
                       = transcript s1 @ [(w, len_rx c, r)]
                  \<and> fst (setval R (recording P) c target s) = reply_outcome c r"
    if h: "\<not> py_eq set_value v" "\<not> truthy on_status" and w: "to_bytes R c v = Inr w" for w
  proof -
    from send_exchange [OF opens w, of s1] obtain r s2
      where r: "send R (recording P) c v s1 = (reply_outcome c r, s2)"
        and t: "transcript s2 = transcript s1 @ [(w, len_rx c, r)]" by blast
    have "setval R (recording P) c target s = (reply_outcome c r, s2)"
      using h r by (cases "reply_outcome c r") (auto simp: u bindS_def returnS_def)
    with t show ?thesis by simp
  qed
  have d: "\<exists>r1.
                  (reply_outcome c r1 = Inr True \<longrightarrow>
                     (\<exists>r2. transcript (snd (setval R (recording P) c target s))
                             = transcript s1 @ [(w, len_rx c, r1), (w, len_rx c, r2)]
                        \<and> fst (setval R (recording P) c target s) = reply_outcome c r2))
                \<and> (reply_outcome c r1 \<noteq> Inr True \<longrightarrow>
                     transcript (snd (setval R (recording P) c target s))
                       = transcript s1 @ [(w, len_rx c, r1)]
                     \<and> fst (setval R (recording P) c target s)
                         = (case reply_outcome c r1 of
                              Inl e \<Rightarrow> Inl e | Inr ok \<Rightarrow> Inr False))"
    if h: "\<not> py_eq set_value v" "truthy on_status" and w: "to_bytes R c v = Inr w" for w
  proof -
    from send_exchange [OF opens w, of s1] obtain r1 s2
      where r1: "send R (recording P) c v s1 = (reply_outcome c r1, s2)"
        and t1: "transcript s2 = transcript s1 @ [(w, len_rx c, r1)]" by blast
    from send_exchange [OF opens w, of s2] obtain r2 s3
      where r2: "send R (recording P) c v s2 = (reply_outcome c r2, s3)"
        and t2: "transcript s3 = transcript s2 @ [(w, len_rx c, r2)]" by blast
    have ok: "transcript (snd (setval R (recording P) c target s))
                             = transcript s1 @ [(w, len_rx c, r1), (w, len_rx c, r2)]
                        \<and> fst (setval R (recording P) c target s) = reply_outcome c r2"
      if "reply_outcome c r1 = Inr True"
    proof -
      have "setval R (recording P) c target s = (reply_outcome c r2, s3)"
        using h r1 r2 that by (simp add: u bindS_def)
      with t1 t2 show ?thesis by simp
    qed
    have ko: "transcript (snd (setval R (recording P) c target s))
                       = transcript s1 @ [(w, len_rx c, r1)]
                     \<and> fst (setval R (recording P) c target s)
                         = (case reply_outcome c r1 of
                              Inl e \<Rightarrow> Inl e | Inr ok \<Rightarrow> Inr False)"
      if "reply_outcome c r1 \<noteq> Inr True"
    proof -
      have "setval R (recording P) c target s
          = ((case reply_outcome c r1 of Inl e \<Rightarrow> Inl e | Inr ok \<Rightarrow> Inr False), s2)"
        using h r1 that by (cases "reply_outcome c r1") (auto simp: u bindS_def returnS_def)
      with t1 show ?thesis by simp
    qed
    from ok ko show ?thesis by blast
  qed
  from a b c d show ?thesis by blast
qed

text \<open>A run: the stir target is 200 and stirring is on; the target 250 takes two exchanges.\<close>

lemma opens_recording_scripted: "fst (serial_open (recording scripted) x) = Inr ()"
  by (cases "serial x") (simp add: serial_open_def recording_def scripted_def)

lemma run_status_stir_on:
  "case status rt0 (recording scripted) True
          (recorded [Inr st_stir200, Inr inf_stir_on, Inr ack_stir, Inr ack_stir]) of
     (Inr cs, s1) \<Rightarrow>
        transcript s1 = [([0xFE, 0xA2, 0x00, 0x00, 0x00, 0xA2], 11, Inr st_stir200),
                         ([0xFE, 0xA1, 0x00, 0x00, 0x00, 0xA1], 11, Inr inf_stir_on)]
        \<and> cs ''stir_set'' = Some (PyInt 200) \<and> cs ''stir_on'' = Some (PyBool True)
   | (Inl e, s1) \<Rightarrow> False"
  by (simp add: status_def st_stir200_def inf_stir_on_def ack_stir_def
      recording_def recorded_def transcript_def
      command_def bindS_def liftE_def returnS_def raiseS_def serial_open_def
      write_with_read_def scripted_def to_bytes_def parse_response_def len_rx_def
      checksum_def status_fields_def info_fields_def index_def bindE_def getitem_def
      int_to_float_u16 binary64_0 Let_def)

lemma run_setval_stir_250:
  "fst (setval rt0 (recording scripted) STIR (PyInt 250)
          (recorded [Inr st_stir200, Inr inf_stir_on, Inr ack_stir, Inr ack_stir])) = Inr True"
  by (simp add: setval_def send_def py_eq_def status_def st_stir200_def inf_stir_on_def ack_stir_def
      recording_def recorded_def transcript_def
      format_value_def encode_frame_eq request_frame_def
      command_def bindS_def liftE_def returnS_def raiseS_def serial_open_def
      write_with_read_def scripted_def to_bytes_def parse_response_def len_rx_def
      checksum_def status_fields_def info_fields_def index_def bindE_def getitem_def
      int_to_float_u16 binary64_0 Let_def)

lemma to_bytes_stir_250: "to_bytes rt0 STIR (PyInt 250) = Inr [0xFE, 0xB1, 0x00, 0xFA, 0x00, 0xAB]"
  by (simp add: to_bytes_def format_value_def encode_frame_eq request_frame_def)

theorem setval_transactions_witness:
  "fst (setval rt0 (recording scripted) STIR (PyInt 250)
          (recorded [Inr st_stir200, Inr inf_stir_on, Inr ack_stir, Inr ack_stir])) = Inr True
   \<and> map fst (transcript (snd (setval rt0 (recording scripted) STIR (PyInt 250)
          (recorded [Inr st_stir200, Inr inf_stir_on, Inr ack_stir, Inr ack_stir]))))
     = [[0xFE, 0xA2, 0x00, 0x00, 0x00, 0xA2], [0xFE, 0xA1, 0x00, 0x00, 0x00, 0xA1],
        [0xFE, 0xB1, 0x00, 0xFA, 0x00, 0xAB], [0xFE, 0xB1, 0x00, 0xFA, 0x00, 0xAB]]"
proof -
  let ?s = "recorded [Inr st_stir200, Inr inf_stir_on, Inr ack_stir, Inr ack_stir]"
  let ?run = "setval rt0 (recording scripted) STIR (PyInt 250) ?s"
  obtain x s1 where rs: "status rt0 (recording scripted) True ?s = (x, s1)"
    by (cases "status rt0 (recording scripted) True ?s")
  from run_status_stir_on obtain cs
    where x: "x = Inr cs"
      and t1: "transcript s1 = [([0xFE, 0xA2, 0x00, 0x00, 0x00, 0xA2], 11, Inr st_stir200),
                         ([0xFE, 0xA1, 0x00, 0x00, 0x00, 0xA1], 11, Inr inf_stir_on)]"
      and sv0: "cs ''stir_set'' = Some (PyInt 200)"
      and on0: "cs ''stir_on'' = Some (PyBool True)"
    unfolding rs by (cases x) simp_all
  have st: "status rt0 (recording scripted) True ?s = (Inr cs, s1)" using rs x by simp
  have sv: "cs (name_lower STIR @ ''_set'') = Some (PyInt 200)" using sv0 by simp
  have on: "cs (name_lower STIR @ ''_on'') = Some (PyBool True)" using on0 by simp
  have v: "PyInt 250 = (if PyInt 250 = PyNone then PyInt 200 else PyInt 250)" by simp
  have ne: "\<not> py_eq (PyInt 200) (PyInt 250) \<and> truthy (PyBool True)" by (simp add: py_eq_def)
  note T = setval_transactions [OF opens_recording_scripted st sv on v]
  from T [THEN conjunct2, THEN conjunct2, THEN conjunct2, rule_format, OF ne to_bytes_stir_250]
  obtain r1
    where ok: "reply_outcome STIR r1 = Inr True \<longrightarrow>
                 (\<exists>r2. transcript (snd ?run)
                         = transcript s1 @ [([0xFE, 0xB1, 0x00, 0xFA, 0x00, 0xAB], len_rx STIR, r1),
                                            ([0xFE, 0xB1, 0x00, 0xFA, 0x00, 0xAB], len_rx STIR, r2)]
                    \<and> fst ?run = reply_outcome STIR r2)"
      and ko: "reply_outcome STIR r1 \<noteq> Inr True \<longrightarrow>
                 transcript (snd ?run)
                   = transcript s1 @ [([0xFE, 0xB1, 0x00, 0xFA, 0x00, 0xAB], len_rx STIR, r1)]
                 \<and> fst ?run = (case reply_outcome STIR r1 of
                                 Inl e \<Rightarrow> Inl e | Inr ok \<Rightarrow> Inr False)"
    by blast
  have "reply_outcome STIR r1 = Inr True"
  proof (rule ccontr)
    assume n: "reply_outcome STIR r1 \<noteq> Inr True"
    with ko have "fst ?run = (case reply_outcome STIR r1 of
                                 Inl e \<Rightarrow> Inl e | Inr ok \<Rightarrow> Inr False)" by simp
    then show False unfolding run_setval_stir_250 by (cases "reply_outcome STIR r1") simp_all
  qed
  with ok obtain r2 where "transcript (snd ?run)
                         = transcript s1 @ [([0xFE, 0xB1, 0x00, 0xFA, 0x00, 0xAB], len_rx STIR, r1),
                                            ([0xFE, 0xB1, 0x00, 0xFA, 0x00, 0xAB], len_rx STIR, r2)]"
    by blast
  then have "map fst (transcript (snd ?run))
     = [[0xFE, 0xA2, 0x00, 0x00, 0x00, 0xA2], [0xFE, 0xA1, 0x00, 0x00, 0x00, 0xA1],
        [0xFE, 0xB1, 0x00, 0xFA, 0x00, 0xAB], [0xFE, 0xB1, 0x00, 0xFA, 0x00, 0xAB]]"
    unfolding t1 by simp
  with run_setval_stir_250 show ?thesis by simp
qed

text \<open>
  Claim C1 as stated fails for a target that \<open>to_bytes\<close> rejects. The device reports
  the stir target 200 with stirring off; the target 70000 is different from it and the
  channel is off, yet no STIR exchange is made: after the two exchanges of the status
  read, \<open>__setval\<close> raises the ValueError of \<open>to_bytes\<close>.
\<close>

theorem setval_transactions_counterexample:
  "(case status rt0 (recording scripted) True
           (recorded [Inr st_stir200, Inr inf_heat_off, Inr ack_stir]) of
      (Inr cs, s1) \<Rightarrow>
         cs ''stir_set'' = Some (PyInt 200) \<and> cs ''stir_on'' = Some (PyBool False)
         \<and> transcript s1 = [([0xFE, 0xA2, 0x00, 0x00, 0x00, 0xA2], 11, Inr st_stir200),
                            ([0xFE, 0xA1, 0x00, 0x00, 0x00, 0xA1], 11, Inr inf_heat_off)]
    | (Inl e, s1) \<Rightarrow> False)
   \<and> \<not> py_eq (PyInt 200) (PyInt 70000)
   \<and> fst (setval rt0 (recording scripted) STIR (PyInt 70000)
            (recorded [Inr st_stir200, Inr inf_heat_off, Inr ack_stir])) = Inl ValueError
   \<and> transcript (snd (setval rt0 (recording scripted) STIR (PyInt 70000)
            (recorded [Inr st_stir200, Inr inf_heat_off, Inr ack_stir])))
       = [([0xFE, 0xA2, 0x00, 0x00, 0x00, 0xA2], 11, Inr st_stir200),
          ([0xFE, 0xA1, 0x00, 0x00, 0x00, 0xA1], 11, Inr inf_heat_off)]"
  by (simp add: setval_def send_def py_eq_def status_def st_stir200_def inf_heat_off_def ack_stir_def
      recording_def recorded_def transcript_def
      format_value_def
      command_def bindS_def liftE_def returnS_def raiseS_def serial_open_def
      write_with_read_def scripted_def to_bytes_def parse_response_def len_rx_def
      checksum_def status_fields_def info_fields_def index_def bindE_def getitem_def
      int_to_float_u16 binary64_0 Let_def)

section \<open>The sequencer: cycling the mode\<close>











section \<open>The sequencer: heating out of range\<close>











end
